theory Spec2Isabelle
  imports Main "HOL-Library.AList" "HOL-Library.Char_ord" "HOL-Library.List_Lexorder"
begin

section \<open>Values and errors\<close>

text \<open>
  The program works on decoded JSON throughout: events, payloads and tasks are Python
  dictionaries with string keys. A dictionary is an association list in insertion order.
  Numbers are Python's unbounded integers; floating-point literals are not modelled.
  A \<open>string\<close> holds the code points of a Python \<open>str\<close> (below 256).
\<close>

datatype json =
    JNull
  | JBool bool
  | JInt int
  | JStr string
  | JArr "json list"
  | JObj "(string \<times> json) list"

type_synonym dict = "(string \<times> json) list"

text \<open>
  \<open>ESAAError\<close> and its subclass \<open>CorruptedStoreError\<close> carry the stable error code.
  The other constructors are the built-in exceptions that the untyped dictionary
  accesses of the source raise.
\<close>

datatype error =
    ESAAError string
  | CorruptedStoreError string
  | KeyError string
  | TypeError
  | AttributeError
  | ValueError

text \<open>\<open>except ESAAError\<close> catches both classes; \<open>except CorruptedStoreError\<close> only one.\<close>

fun is_ESAAError :: "error \<Rightarrow> bool" where
  "is_ESAAError (ESAAError c) = True"
| "is_ESAAError (CorruptedStoreError c) = True"
| "is_ESAAError e = False"

fun is_CorruptedStoreError :: "error \<Rightarrow> bool" where
  "is_CorruptedStoreError (CorruptedStoreError c) = True"
| "is_CorruptedStoreError e = False"

definition bind :: "error + 'a \<Rightarrow> ('a \<Rightarrow> error + 'b) \<Rightarrow> error + 'b" where
  "bind m f = (case m of Inl e \<Rightarrow> Inl e | Inr v \<Rightarrow> f v)"

text \<open>\<open>d[k]\<close>, \<open>d.get(k)\<close>, \<open>d.get(k, default)\<close>, \<open>k in d\<close> on a dictionary.\<close>

definition getitem :: "dict \<Rightarrow> string \<Rightarrow> error + json" where
  "getitem d k = (case map_of d k of None \<Rightarrow> Inl (KeyError k) | Some v \<Rightarrow> Inr v)"

definition get_or :: "dict \<Rightarrow> string \<Rightarrow> json \<Rightarrow> json" where
  "get_or d k dflt = (case map_of d k of None \<Rightarrow> dflt | Some v \<Rightarrow> v)"

definition has_key :: "dict \<Rightarrow> string \<Rightarrow> bool" where
  "has_key d k = (map_of d k \<noteq> None)"

text \<open>
  \<open>x[k]\<close> and \<open>x.get(k)\<close> on an arbitrary decoded value: only a dictionary has string
  keys and a \<open>get\<close> method.
\<close>

fun subscript :: "json \<Rightarrow> string \<Rightarrow> error + json" where
  "subscript (JObj d) k = getitem d k"
| "subscript v k = Inl TypeError"

fun as_dict :: "json \<Rightarrow> error + dict" where
  "as_dict (JObj d) = Inr d"
| "as_dict v = Inl AttributeError"

text \<open>
  \<open>x[k] = v\<close> and \<open>x.setdefault(k, v)\<close> on an arbitrary decoded value, which must be a
  dictionary: an existing key keeps its place, a new one goes to the end.
\<close>

definition setdefault :: "string \<Rightarrow> json \<Rightarrow> dict \<Rightarrow> dict" where
  "setdefault k v d = (if has_key d k then d else d @ [(k, v)])"

fun setitem :: "json \<Rightarrow> string \<Rightarrow> json \<Rightarrow> error + json" where
  "setitem (JObj d) k v = Inr (JObj (AList.update k v d))"
| "setitem x k v = Inl TypeError"

fun setdefault_of :: "json \<Rightarrow> string \<Rightarrow> json \<Rightarrow> error + json" where
  "setdefault_of (JObj d) k v = Inr (JObj (setdefault k v d))"
| "setdefault_of x k v = Inl AttributeError"

text \<open>Python's truth value of a decoded JSON value.\<close>

fun truthy :: "json \<Rightarrow> bool" where
  "truthy JNull = False"
| "truthy (JBool b) = b"
| "truthy (JInt i) = (i \<noteq> 0)"
| "truthy (JStr s) = (s \<noteq> [])"
| "truthy (JArr xs) = (xs \<noteq> [])"
| "truthy (JObj d) = (d \<noteq> [])"

text \<open>
  \<open>isinstance(v, int)\<close> holds for integers and, because \<open>bool\<close> is a subclass of
  \<open>int\<close>, for \<open>True\<close> and \<open>False\<close>, which count as 1 and 0.
\<close>

fun int_value :: "json \<Rightarrow> int option" where
  "int_value (JInt i) = Some i"
| "int_value (JBool b) = Some (if b then 1 else 0)"
| "int_value v = None"

text \<open>
  Python's \<open>==\<close> on decoded values: numbers compare by value (\<open>True == 1\<close>), lists
  element by element, dictionaries as sets of items whatever the insertion order.
\<close>

function py_eq :: "json \<Rightarrow> json \<Rightarrow> bool" where
  "py_eq (JArr xs) w =
     (case w of JArr ys \<Rightarrow> length xs = length ys \<and> (\<forall>p \<in> set (zip xs ys). py_eq (fst p) (snd p))
      | _ \<Rightarrow> False)"
| "py_eq (JObj d) w =
     (case w of JObj d' \<Rightarrow>
        length d = length d' \<and>
        (\<forall>p \<in> set d. case map_of d' (fst p) of None \<Rightarrow> False | Some v' \<Rightarrow> py_eq (snd p) v')
      | _ \<Rightarrow> False)"
| "py_eq JNull w = (w = JNull)"
| "py_eq (JStr s) w = (w = JStr s)"
| "py_eq (JBool b) w = (int_value w = Some (if b then 1 else 0))"
| "py_eq (JInt i) w = (int_value w = Some i)"
  by pat_completeness auto
termination
proof (relation "measure (\<lambda>q. size (fst q))", goal_cases)
  case 1
  show ?case by simp
next
  case (2 xs w ys p)
  have elem: "x \<in> set zs \<Longrightarrow> size (x::json) < Suc (size_list size zs)" for x zs
    by (induction zs) auto
  from 2 have "fst p \<in> set xs"
    using set_zip_leftD [of "fst p" "snd p" xs ys] by simp
  then show ?case
    using elem [of "fst p" xs] by simp
next
  case (3 d w d' p v')
  have item: "q \<in> set e \<Longrightarrow> size (snd q) < Suc (size_list (size_prod (\<lambda>_. 0) size) e)"
    for q :: "string \<times> json" and e
    by (induction e) auto
  from 3 show ?case
    using item [of p d] by simp
qed

text \<open>
  Elements of a \<open>set\<close> and keys of a \<open>dict\<close> must be hashable: lists and dictionaries
  are not, and using one raises \<open>TypeError\<close>.
\<close>

fun hashable :: "json \<Rightarrow> bool" where
  "hashable (JArr xs) = False"
| "hashable (JObj d) = False"
| "hashable v = True"

section \<open>Strings and decimal numerals\<close>

definition startswith :: "string \<Rightarrow> string \<Rightarrow> bool" where
  "startswith s p = (take (length p) s = p)"

text \<open>\<open>s.replace(a, b)\<close> for single characters, \<open>s.lstrip(chars)\<close>, \<open>s.split(sep)\<close>.\<close>

definition replace_char :: "char \<Rightarrow> char \<Rightarrow> string \<Rightarrow> string" where
  "replace_char a b s = map (\<lambda>c. if c = a then b else c) s"

definition lstrip :: "string \<Rightarrow> string \<Rightarrow> string" where
  "lstrip chars s = dropWhile (\<lambda>c. c \<in> set chars) s"

fun split_on :: "char \<Rightarrow> string \<Rightarrow> string list" where
  "split_on sep [] = [[]]"
| "split_on sep (c # cs) =
     (if c = sep then [] # split_on sep cs
      else (case split_on sep cs of [] \<Rightarrow> [[c]] | w # ws \<Rightarrow> (c # w) # ws))"

definition digit_char :: "nat \<Rightarrow> char" where
  "digit_char d = ''0123456789'' ! d"

function dec_nat :: "nat \<Rightarrow> string" where
  "dec_nat n = (if n < 10 then [digit_char n] else dec_nat (n div 10) @ [digit_char (n mod 10)])"
  by pat_completeness auto
termination
  by (relation "measure id") auto

declare dec_nat.simps [simp del]

text \<open>\<open>str(i)\<close> and the format specification \<open>{i:0Wd}\<close> on an integer.\<close>

definition dec_int :: "int \<Rightarrow> string" where
  "dec_int i = (if i < 0 then CHR ''-'' # dec_nat (nat (- i)) else dec_nat (nat i))"

definition zfill :: "nat \<Rightarrow> string \<Rightarrow> string" where
  "zfill w s = replicate (w - length s) CHR ''0'' @ s"

definition format_0d :: "nat \<Rightarrow> int \<Rightarrow> string" where
  "format_0d w i =
     (if i < 0 then CHR ''-'' # zfill (w - 1) (dec_nat (nat (- i))) else zfill w (dec_nat (nat i)))"

section \<open>Safe paths (utils.py, validator.py)\<close>

text \<open>
  \<open>normalize_rel_path\<close> is \<open>path.replace("\\", "/").lstrip("./")\<close>: \<open>lstrip\<close> takes a
  set of characters, so every leading dot and slash goes.
\<close>

definition normalize_rel_path :: "string \<Rightarrow> string" where
  "normalize_rel_path path = lstrip ''./'' (replace_char (CHR 0x5C) CHR ''/'' path)"

text \<open>
  \<open>PurePosixPath(s).parts\<close>: the root (\<open>/\<close>, or \<open>//\<close> for exactly two leading
  slashes) followed by the components between slashes, empty components and single dots
  dropped.
\<close>

definition posix_root :: "string \<Rightarrow> string list" where
  "posix_root s =
     (if startswith s ''///'' then [''/'']
      else if startswith s ''//'' then [''//'']
      else if startswith s ''/'' then [''/'']
      else [])"

definition posix_parts :: "string \<Rightarrow> string list" where
  "posix_parts s = posix_root s @ filter (\<lambda>p. p \<noteq> [] \<and> p \<noteq> ''.'') (split_on CHR ''/'' s)"

definition validate_safe_path :: "string \<Rightarrow> error + string" where
  "validate_safe_path path =
     (let norm = normalize_rel_path path in
      if norm = [] \<or> startswith norm ''/'' \<or> startswith norm ''..''
      then Inl (ESAAError ''BOUNDARY_VIOLATION'')
      else if list_ex (\<lambda>part. part = ''..'') (posix_parts norm)
      then Inl (ESAAError ''BOUNDARY_VIOLATION'')
      else Inr norm)"

text \<open>
  \<open>_validate_boundaries\<close>. What it reads from the contract and from the task is gathered
  in a record, and \<open>fnmatch.fnmatch\<close> is a parameter. The paths are those of the file
  updates, in order.
\<close>

record write_boundaries =
  allowlist :: "string list"
  denylist :: "string list"
  scope_patch_enabled :: bool
  is_hotfix_task :: bool
  scope_patch :: "string list"

definition matches_any :: "(string \<Rightarrow> string \<Rightarrow> bool) \<Rightarrow> string \<Rightarrow> string list \<Rightarrow> bool" where
  "matches_any fnmatch path patterns =
     list_ex (\<lambda>pattern. fnmatch path (replace_char (CHR 0x5C) CHR ''/'' pattern)) patterns"

fun validate_boundaries ::
  "(string \<Rightarrow> string \<Rightarrow> bool) \<Rightarrow> write_boundaries \<Rightarrow> string list \<Rightarrow> error + unit" where
  "validate_boundaries fnmatch b [] = Inr ()"
| "validate_boundaries fnmatch b (item # rest) =
     bind (validate_safe_path item) (\<lambda>path.
       if \<not> matches_any fnmatch path (allowlist b)
       then Inl (ESAAError ''BOUNDARY_VIOLATION'')
       else if denylist b \<noteq> [] \<and> matches_any fnmatch path (denylist b)
       then Inl (ESAAError ''BOUNDARY_VIOLATION'')
       else if scope_patch_enabled b \<and> is_hotfix_task b
       then (if scope_patch b = [] then Inl (ESAAError ''BOUNDARY_VIOLATION'')
             else if \<not> list_ex (\<lambda>prefix. startswith path (normalize_rel_path prefix))
                          (scope_patch b)
             then Inl (ESAAError ''BOUNDARY_VIOLATION'')
             else validate_boundaries fnmatch b rest)
       else validate_boundaries fnmatch b rest)"

section \<open>Legacy normalisation (compat.py)\<close>

text \<open>
  \<open>normalize_legacy_event\<close>: \<open>data\<close> becomes \<open>payload\<close> (or is dropped when a payload
  is there), \<open>run.init\<close> becomes \<open>run.start\<close> with a default status in the payload, and
  the schema version defaults to 0.3.0. \<open>payload.setdefault\<close> needs a dictionary.
\<close>

definition normalize_legacy_event :: "dict \<Rightarrow> error + dict" where
  "normalize_legacy_event raw =
     (let event =
        (if \<not> has_key raw ''payload'' \<and> has_key raw ''data''
         then AList.update ''payload'' (get_or raw ''data'' JNull) (AList.delete ''data'' raw)
         else if has_key raw ''data'' then AList.delete ''data'' raw
         else raw)
      in bind
        (if get_or event ''action'' JNull = JStr ''run.init''
         then (let event1 = setdefault ''payload'' (JObj [])
                              (AList.update ''action'' (JStr ''run.start'') event)
               in bind (setdefault_of (get_or event1 ''payload'' JNull) ''status''
                          (JStr ''initialized''))
                    (\<lambda>payload. Inr (AList.update ''payload'' payload event1)))
         else Inr event)
        (\<lambda>event2. Inr (setdefault ''schema_version'' (JStr ''0.3.0'') event2)))"

section \<open>Event store (store.py)\<close>

definition CANONICAL_ACTIONS :: "string list" where
  "CANONICAL_ACTIONS =
     [''run.start'', ''run.end'', ''task.create'', ''claim'', ''complete'', ''review'',
      ''issue.report'', ''hotfix.create'', ''issue.resolve'', ''output.rejected'',
      ''orchestrator.file.write'', ''orchestrator.view.mutate'', ''verify.start'',
      ''verify.ok'', ''verify.fail'']"

definition required :: "string list" where
  "required =
     [''schema_version'', ''event_id'', ''event_seq'', ''ts'', ''actor'', ''action'', ''payload'']"

text \<open>\<open>v in names\<close> for a set of strings: the value is hashed first.\<close>

definition in_strs :: "json \<Rightarrow> string list \<Rightarrow> error + bool" where
  "in_strs v names = (if hashable v then Inr (list_ex (\<lambda>n. v = JStr n) names) else Inl TypeError)"

text \<open>
  One turn of the loop of \<open>parse_event_store\<close>, in three parts. A line is \<open>None\<close> when
  \<open>json.loads\<close> fails on it and the decoded object otherwise (the store holds one object
  per line). \<open>seen_ids\<close> is the set of identifiers so far, \<open>last_seq\<close> the last sequence
  number. First the identifier a legacy event lacks is made from its sequence number.
\<close>

definition with_event_id :: "int \<Rightarrow> dict \<Rightarrow> dict" where
  "with_event_id event_seq event =
     (if has_key event ''event_id'' then event
      else AList.update ''event_id'' (JStr (''LEGACY-EV-'' @ format_0d 8 event_seq)) event)"

text \<open>The checks on the identifier, the required fields and the action.\<close>

definition check_event :: "json list \<Rightarrow> dict \<Rightarrow> error + dict" where
  "check_event seen_ids event =
     (let event_id = get_or event ''event_id'' JNull
      in if \<not> hashable event_id then Inl TypeError
         else if list_ex (py_eq event_id) seen_ids
         then Inl (CorruptedStoreError ''EVENT_ID_DUPLICATE'')
         else if list_ex (\<lambda>k. \<not> has_key event k) required
         then Inl (CorruptedStoreError ''EVENT_MISSING_FIELDS'')
         else bind (in_strs (get_or event ''action'' JNull) CANONICAL_ACTIONS)
                (\<lambda>known.
                   if \<not> known then Inl (CorruptedStoreError ''UNKNOWN_ACTION'')
                   else Inr event))"

text \<open>Decoding, legacy normalisation and the check of the sequence number come first.\<close>

definition parse_line :: "json list \<Rightarrow> int \<Rightarrow> dict option \<Rightarrow> error + dict" where
  "parse_line seen_ids last_seq line =
     (case line of
        None \<Rightarrow> Inl (CorruptedStoreError ''JSONL_INVALID'')
      | Some raw \<Rightarrow>
          bind (normalize_legacy_event raw) (\<lambda>event.
            case int_value (get_or event ''event_seq'' JNull) of
              None \<Rightarrow> Inl (CorruptedStoreError ''EVENT_SEQ_INVALID'')
            | Some event_seq \<Rightarrow>
                if event_seq \<noteq> last_seq + 1
                then Inl (CorruptedStoreError ''EVENT_SEQ_NON_MONOTONIC'')
                else check_event seen_ids (with_event_id event_seq event)))"

text \<open>
  The loop, with its three variables. After a turn \<open>last_seq\<close> is the event's own
  \<open>event_seq\<close>, which the turn has checked to be \<open>last_seq + 1\<close>.
\<close>

fun parse_loop :: "dict list \<Rightarrow> json list \<Rightarrow> int \<Rightarrow> dict option list \<Rightarrow> error + dict list" where
  "parse_loop events seen_ids last_seq [] = Inr events"
| "parse_loop events seen_ids last_seq (line # rest) =
     bind (parse_line seen_ids last_seq line) (\<lambda>event.
       parse_loop (events @ [event]) (get_or event ''event_id'' JNull # seen_ids)
         (last_seq + 1) rest)"

definition parse_event_store :: "dict option list \<Rightarrow> error + dict list" where
  "parse_event_store lines = parse_loop [] [] 0 lines"

section \<open>Projector state (projector.py)\<close>

definition SCHEMA_VERSION :: string where
  "SCHEMA_VERSION = ''0.4.0''"

definition ESAA_VERSION :: string where
  "ESAA_VERSION = ''0.4.x''"

text \<open>
  The state dictionary of the projector has a fixed set of keys, so it is a record.
  Tasks, issues and lessons stay dictionaries. \<open>run_status\<close> is the key \<open>status\<close> of
  \<open>meta.run\<close>. The issue table is keyed by the issue identifier, any hashable value.
\<close>

record run_meta =
  run_id :: json
  run_status :: json
  last_event_seq :: json
  projection_hash_sha256 :: string
  verify_status :: json

record meta =
  schema_version :: string
  esaa_version :: string
  immutable_done :: bool
  master_correlation_id :: json
  run :: run_meta
  updated_at :: json

record project =
  name :: string
  audit_scope :: string

record indexes =
  by_status :: "(string \<times> int) list"
  by_kind :: "(string \<times> int) list"

record roadmap =
  meta :: meta
  project :: project
  tasks :: "dict list"
  indexes :: indexes

record state = roadmap +
  issues :: "(json \<times> dict) list"
  lessons :: "dict list"

text \<open>\<open>_empty_state\<close>; \<open>now\<close> is what \<open>utc_now_iso()\<close> returns at the call.\<close>

definition empty_state :: "string \<Rightarrow> string \<Rightarrow> state" where
  "empty_state now project_name =
     \<lparr> meta =
         \<lparr> schema_version = SCHEMA_VERSION,
           esaa_version = ESAA_VERSION,
           immutable_done = True,
           master_correlation_id = JNull,
           run =
             \<lparr> run_id = JNull,
               run_status = JStr ''initialized'',
               last_event_seq = JInt 0,
               projection_hash_sha256 = [],
               verify_status = JStr ''unknown'' \<rparr>,
           updated_at = JStr now \<rparr>,
       project = \<lparr> name = project_name, audit_scope = ''.roadmap/'' \<rparr>,
       tasks = [],
       indexes = \<lparr> by_status = [], by_kind = [] \<rparr>,
       issues = [],
       lessons = [] \<rparr>"

text \<open>Lookup and store in the issue table: keys are compared with Python's \<open>==\<close>.\<close>

fun issues_get :: "(json \<times> dict) list \<Rightarrow> json \<Rightarrow> dict option" where
  "issues_get [] k = None"
| "issues_get (kv # rest) k = (if py_eq (fst kv) k then Some (snd kv) else issues_get rest k)"

fun issues_set :: "json \<Rightarrow> dict \<Rightarrow> (json \<times> dict) list \<Rightarrow> (json \<times> dict) list" where
  "issues_set k v [] = [(k, v)]"
| "issues_set k v (kv # rest) =
     (if py_eq (fst kv) k then (fst kv, v) # rest else kv # issues_set k v rest)"

section \<open>Tasks\<close>

text \<open>\<open>str.isspace\<close> on the code points below 256; \<open>list(x)\<close> on a decoded value.\<close>

definition isspace :: "char \<Rightarrow> bool" where
  "isspace c =
     (c \<in> set [CHR 0x09, CHR 0x0A, CHR 0x0B, CHR 0x0C, CHR 0x0D, CHR 0x1C, CHR 0x1D,
                CHR 0x1E, CHR 0x1F, CHR 0x20, CHR 0x85, CHR 0xA0])"

fun py_list :: "json \<Rightarrow> error + json list" where
  "py_list (JArr xs) = Inr xs"
| "py_list (JStr s) = Inr (map (\<lambda>c. JStr [c]) s)"
| "py_list (JObj d) = Inr (map (\<lambda>kv. JStr (fst kv)) d)"
| "py_list v = Inl TypeError"

definition hotfix_fields :: "string list" where
  "hotfix_fields = [''issue_id'', ''fixes'', ''scope_patch'', ''required_verification'', ''baseline_id'']"

definition new_task :: "json \<Rightarrow> error + dict" where
  "new_task payload =
     bind (as_dict payload) (\<lambda>p.
     bind (getitem p ''title'') (\<lambda>title.
     bind (getitem p ''task_id'') (\<lambda>task_id.
     bind (getitem p ''task_kind'') (\<lambda>task_kind.
     bind (py_list (get_or p ''depends_on'' (JArr []))) (\<lambda>depends_on.
     bind (py_list (get_or p ''targets'' (JArr []))) (\<lambda>targets.
       (let description =
              (case get_or p ''description'' title of
                 JStr s \<Rightarrow> if list_all isspace s then title else JStr s
               | _ \<Rightarrow> title);
            task =
              [(''task_id'', task_id),
               (''task_kind'', task_kind),
               (''title'', title),
               (''description'', description),
               (''status'', JStr ''todo''),
               (''depends_on'', JArr depends_on),
               (''targets'', JArr targets),
               (''outputs'', get_or p ''outputs'' (JObj [(''files'', JArr [])])),
               (''immutability'', JObj [(''done_is_immutable'', JBool True)])]
        in Inr (if truthy (get_or p ''is_hotfix'' JNull)
                then foldl (\<lambda>t field.
                              if has_key p field then AList.update field (get_or p field JNull) t
                              else t)
                       (AList.update ''is_hotfix'' (JBool True) task) hotfix_fields
                else task))))))))"

text \<open>
  \<open>_task_by_id\<close> returns the first task whose identifier equals the one asked for. The
  caller mutates the task it gets, so the model returns its position with it.
\<close>

fun task_by_id :: "dict list \<Rightarrow> json \<Rightarrow> error + nat \<times> dict" where
  "task_by_id [] task_id = Inl (ESAAError ''TASK_NOT_FOUND'')"
| "task_by_id (task # rest) task_id =
     bind (getitem task ''task_id'') (\<lambda>v.
       if py_eq v task_id then Inr (0, task)
       else bind (task_by_id rest task_id) (\<lambda>found. Inr (Suc (fst found), snd found)))"

definition ensure_owner :: "dict \<Rightarrow> json \<Rightarrow> error + unit" where
  "ensure_owner task actor =
     (let owner = get_or task ''assigned_to'' JNull
      in if \<not> py_eq owner actor then Inl (ESAAError ''NOT_LOCK_OWNER'') else Inr ())"

definition apply_claim :: "state \<Rightarrow> dict \<Rightarrow> error + state" where
  "apply_claim state event =
     bind (getitem event ''payload'') (\<lambda>payload.
     bind (subscript payload ''task_id'') (\<lambda>task_id.
     bind (task_by_id (tasks state) task_id) (\<lambda>found.
     bind (getitem (snd found) ''status'') (\<lambda>status.
       if status = JStr ''done'' then Inl (ESAAError ''IMMUTABLE_DONE'')
       else
         bind (in_strs status [''in_progress'', ''review'']) (\<lambda>locked.
           if locked \<or> truthy (get_or (snd found) ''assigned_to'' JNull)
           then Inl (ESAAError ''LOCKED_TASK'')
           else
             bind (getitem event ''actor'') (\<lambda>actor.
             bind (getitem event ''ts'') (\<lambda>ts.
               Inr (state\<lparr>tasks := (tasks state)
                      [fst found :=
                         AList.update ''started_at'' ts
                           (AList.update ''assigned_to'' actor
                              (AList.update ''status'' (JStr ''in_progress'') (snd found)))]\<rparr>))))))))"

definition apply_complete :: "state \<Rightarrow> dict \<Rightarrow> error + state" where
  "apply_complete state event =
     bind (getitem event ''payload'') (\<lambda>payload.
     bind (subscript payload ''task_id'') (\<lambda>task_id.
     bind (task_by_id (tasks state) task_id) (\<lambda>found.
     bind (getitem (snd found) ''status'') (\<lambda>status.
       if status = JStr ''done'' then Inl (ESAAError ''IMMUTABLE_DONE'')
       else if status \<noteq> JStr ''in_progress'' then Inl (ESAAError ''INVALID_TRANSITION'')
       else
         bind (getitem event ''actor'') (\<lambda>actor.
         bind (ensure_owner (snd found) actor) (\<lambda>_.
         bind (as_dict payload) (\<lambda>p.
           (let task1 = AList.update ''status'' (JStr ''review'') (snd found);
                verification = get_or p ''verification'' JNull;
                task2 = (if truthy verification
                         then AList.update ''verification'' verification task1 else task1);
                task3 = (if has_key p ''issue_id''
                         then AList.update ''issue_id'' (get_or p ''issue_id'' JNull) task2
                         else task2);
                task4 = (if has_key p ''fixes''
                         then AList.update ''fixes'' (get_or p ''fixes'' JNull) task3
                         else task3)
            in Inr (state\<lparr>tasks := (tasks state)[fst found := task4]\<rparr>)))))))))"

definition apply_review :: "state \<Rightarrow> dict \<Rightarrow> error + state" where
  "apply_review state event =
     bind (getitem event ''payload'') (\<lambda>payload.
     bind (subscript payload ''task_id'') (\<lambda>task_id.
     bind (task_by_id (tasks state) task_id) (\<lambda>found.
     bind (as_dict payload) (\<lambda>p.
     bind (getitem (snd found) ''status'') (\<lambda>status.
       if status = JStr ''done'' then Inl (ESAAError ''IMMUTABLE_DONE'')
       else if status \<noteq> JStr ''review'' then Inl (ESAAError ''INVALID_TRANSITION'')
       else
         bind (getitem event ''actor'') (\<lambda>actor.
         bind (ensure_owner (snd found) actor) (\<lambda>_.
           (let decision = get_or p ''decision'' JNull
            in if decision = JStr ''approve''
               then bind (getitem event ''ts'') (\<lambda>ts.
                      Inr (state\<lparr>tasks := (tasks state)
                             [fst found :=
                                AList.update ''completed_at'' ts
                                  (AList.update ''status'' (JStr ''done'') (snd found))]\<rparr>))
               else if decision = JStr ''request_changes''
               then Inr (state\<lparr>tasks := (tasks state)
                           [fst found :=
                              AList.update ''status'' (JStr ''in_progress'') (snd found)]\<rparr>)
               else Inl (ESAAError ''INVALID_TRANSITION'')))))))))"

section \<open>Issues, lessons and hotfixes\<close>

text \<open>
  \<open>_apply_issue_report\<close>, in its parts. First the record that \<open>setdefault\<close> is given
  for an issue not yet there. Python builds it before it looks the key up, so the
  accesses in it can raise on a re-report as well.
\<close>

definition fresh_issue :: "dict \<Rightarrow> json \<Rightarrow> dict \<Rightarrow> json \<Rightarrow> dict" where
  "fresh_issue p issue_id affected event_seq =
     [(''issue_id'', issue_id),
      (''status'', JStr ''open''),
      (''severity'', get_or p ''severity'' (JStr ''medium'')),
      (''title'', get_or p ''title'' issue_id),
      (''baseline_id'', get_or affected ''baseline_id'' JNull),
      (''affected'', JObj affected),
      (''evidence'', get_or p ''evidence'' (JObj [])),
      (''resolution'', JNull),
      (''links'',
         JObj [(''reported_by_task_id'', get_or p ''task_id'' JNull),
               (''fixes_task_id'', get_or p ''fixes'' JNull),
               (''hotfix_task_id'', JNull)]),
      (''timeline'',
         JObj [(''created_event_seq'', event_seq),
               (''resolved_event_seq'', JNull)])]"

text \<open>
  The four assignments that follow, on the record found or just made: status, severity,
  title and evidence are written; nothing else is.
\<close>

definition touch_issue :: "dict \<Rightarrow> dict \<Rightarrow> error + dict" where
  "touch_issue p issue =
     (let issue1 = AList.update ''status'' (JStr ''open'') issue
      in bind (getitem issue1 ''severity'') (\<lambda>severity.
           (let issue2 = AList.update ''severity'' (get_or p ''severity'' severity) issue1
            in bind (getitem issue2 ''title'') (\<lambda>title.
                 (let issue3 = AList.update ''title'' (get_or p ''title'' title) issue2
                  in Inr (AList.update ''evidence''
                            (get_or p ''evidence'' (get_or issue3 ''evidence'' (JObj [])))
                            issue3))))))"

text \<open>The lesson record, numbered after the lessons there are.\<close>

definition new_lesson :: "dict \<Rightarrow> dict \<Rightarrow> nat \<Rightarrow> error + dict" where
  "new_lesson p event count =
     (let lesson_payload = get_or p ''lesson'' JNull;
          lesson_id = ''LES-'' @ format_0d 4 (int count + 1)
      in bind (getitem event ''ts'') (\<lambda>ts.
         bind (subscript lesson_payload ''mistake'') (\<lambda>mistake.
         bind (subscript lesson_payload ''rule'') (\<lambda>rule.
         bind (subscript lesson_payload ''scope'') (\<lambda>scope.
         bind (subscript lesson_payload ''enforcement'') (\<lambda>enforcement.
         bind (getitem event ''event_id'') (\<lambda>event_id.
           Inr [(''lesson_id'', JStr lesson_id),
                (''status'', JStr ''active''),
                (''created_at'', ts),
                (''title'', get_or p ''title'' (JStr lesson_id)),
                (''mistake'', mistake),
                (''rule'', rule),
                (''scope'', scope),
                (''enforcement'', enforcement),
                (''source_refs'',
                   JArr [JObj [(''task_id'', get_or p ''task_id'' JNull),
                               (''event_id'', event_id)]])])))))))"

definition apply_issue_report :: "state \<Rightarrow> dict \<Rightarrow> error + state" where
  "apply_issue_report state event =
     bind (getitem event ''payload'') (\<lambda>payload.
     bind (subscript payload ''issue_id'') (\<lambda>issue_id.
     bind (as_dict payload) (\<lambda>p.
     bind (as_dict (get_or p ''affected'' (JObj []))) (\<lambda>affected.
     bind (getitem event ''event_seq'') (\<lambda>event_seq.
       if \<not> hashable issue_id then Inl TypeError
       else
         bind (touch_issue p
                 (case issues_get (issues state) issue_id of
                    None \<Rightarrow> fresh_issue p issue_id affected event_seq
                  | Some existing \<Rightarrow> existing)) (\<lambda>issue.
           (let state1 = state\<lparr>issues := issues_set issue_id issue (issues state)\<rparr>
            in if get_or p ''category'' JNull = JStr ''process''
                  \<and> get_or p ''subtype'' JNull = JStr ''lesson'' \<and> has_key p ''lesson''
               then bind (new_lesson p event (length (lessons state1))) (\<lambda>lesson.
                      Inr (state1\<lparr>lessons := lessons state1 @ [lesson]\<rparr>))
               else Inr state1)))))))"

text \<open>The duplicate check of \<open>_apply_hotfix_create\<close>: a loop over the tasks.\<close>

fun task_exists :: "dict list \<Rightarrow> json \<Rightarrow> error + bool" where
  "task_exists [] task_id = Inr False"
| "task_exists (task # rest) task_id =
     bind (getitem task ''task_id'') (\<lambda>v.
       if py_eq v task_id then Inr True else task_exists rest task_id)"

definition apply_hotfix_create :: "state \<Rightarrow> dict \<Rightarrow> error + state" where
  "apply_hotfix_create state event =
     bind (getitem event ''payload'') (\<lambda>payload.
     bind (subscript payload ''task_id'') (\<lambda>task_id.
     bind (task_exists (tasks state) task_id) (\<lambda>duplicate.
       if duplicate then Inl (ESAAError ''DUPLICATE_TASK'')
       else
         bind (new_task payload) (\<lambda>task.
         bind (as_dict payload) (\<lambda>p.
           (let state1 = state\<lparr>tasks := tasks state @ [task]\<rparr>;
                issue_id = get_or p ''issue_id'' JNull
            in if \<not> truthy issue_id then Inr state1
               else if \<not> hashable issue_id then Inl TypeError
               else
                 (case issues_get (issues state1) issue_id of
                    None \<Rightarrow> Inr state1
                  | Some issue \<Rightarrow>
                      bind (getitem issue ''links'') (\<lambda>links.
                      bind (setitem links ''hotfix_task_id'' task_id) (\<lambda>links1.
                        Inr (state1\<lparr>issues :=
                               issues_set issue_id (AList.update ''links'' links1 issue)
                                 (issues state1)\<rparr>))))))))))"

definition apply_issue_resolve :: "state \<Rightarrow> dict \<Rightarrow> error + state" where
  "apply_issue_resolve state event =
     bind (getitem event ''payload'') (\<lambda>payload.
     bind (subscript payload ''issue_id'') (\<lambda>issue_id.
     bind (as_dict payload) (\<lambda>p.
       if \<not> hashable issue_id then Inl TypeError
       else
         (case issues_get (issues state) issue_id of
            None \<Rightarrow> Inl (ESAAError ''ISSUE_NOT_FOUND'')
          | Some issue \<Rightarrow>
              if issue = [] then Inl (ESAAError ''ISSUE_NOT_FOUND'')
              else
                (let issue1 = AList.update ''resolution'' (get_or p ''resolution'' (JObj []))
                                (AList.update ''status'' (JStr ''resolved'') issue)
                 in bind (getitem event ''event_seq'') (\<lambda>event_seq.
                    bind (getitem issue1 ''timeline'') (\<lambda>timeline.
                    bind (setitem timeline ''resolved_event_seq'' event_seq) (\<lambda>timeline1.
                      Inr (state\<lparr>issues :=
                             issues_set issue_id (AList.update ''timeline'' timeline1 issue1)
                               (issues state)\<rparr>)))))))))"

section \<open>Applying events\<close>

definition set_run :: "(run_meta \<Rightarrow> run_meta) \<Rightarrow> state \<Rightarrow> state" where
  "set_run f state = state\<lparr>meta := (meta state)\<lparr>run := f (run (meta state))\<rparr>\<rparr>"

text \<open>
  \<open>_apply_event\<close>: the dispatch on the action, then the two assignments every event ends
  with.
\<close>

definition dispatch :: "state \<Rightarrow> dict \<Rightarrow> json \<Rightarrow> json \<Rightarrow> error + state" where
  "dispatch state event action payload =
     (if action = JStr ''run.start'' then
        bind (as_dict payload) (\<lambda>p.
          Inr (set_run (\<lambda>r. r\<lparr>run_id := get_or p ''run_id'' (run_id r),
                                run_status := get_or p ''status'' (JStr ''initialized'')\<rparr>)
                 (state\<lparr>meta := (meta state)
                    \<lparr>master_correlation_id := get_or p ''master_correlation_id'' JNull\<rparr>\<rparr>)))
      else if action = JStr ''run.end'' then
        bind (as_dict payload) (\<lambda>p.
          Inr (set_run (\<lambda>r. r\<lparr>run_status := get_or p ''status'' (JStr ''success'')\<rparr>) state))
      else if action = JStr ''task.create'' then
        bind (new_task payload) (\<lambda>task. Inr (state\<lparr>tasks := tasks state @ [task]\<rparr>))
      else if action = JStr ''claim'' then apply_claim state event
      else if action = JStr ''complete'' then apply_complete state event
      else if action = JStr ''review'' then apply_review state event
      else if action = JStr ''issue.report'' then apply_issue_report state event
      else if action = JStr ''hotfix.create'' then apply_hotfix_create state event
      else if action = JStr ''issue.resolve'' then apply_issue_resolve state event
      else if action = JStr ''verify.ok'' then
        Inr (set_run (\<lambda>r. r\<lparr>verify_status := JStr ''ok''\<rparr>) state)
      else if action = JStr ''verify.fail'' then
        bind (as_dict payload) (\<lambda>p.
          Inr (set_run (\<lambda>r. r\<lparr>verify_status := get_or p ''verify_status'' (JStr ''mismatch'')\<rparr>)
                 state))
      else
        bind (in_strs action [''output.rejected'', ''orchestrator.file.write'',
                              ''orchestrator.view.mutate'', ''verify.start''])
          (\<lambda>audit. if audit then Inr state else Inl (ESAAError ''UNKNOWN_ACTION'')))"

definition apply_event :: "state \<Rightarrow> dict \<Rightarrow> error + state" where
  "apply_event state event =
     bind (getitem event ''action'') (\<lambda>action.
     bind (getitem event ''payload'') (\<lambda>payload.
     bind (dispatch state event action payload) (\<lambda>state1.
     bind (getitem event ''event_seq'') (\<lambda>event_seq.
     bind (getitem event ''ts'') (\<lambda>ts.
       Inr ((set_run (\<lambda>r. r\<lparr>last_event_seq := event_seq\<rparr>) state1)
              \<lparr>meta := (meta (set_run (\<lambda>r. r\<lparr>last_event_seq := event_seq\<rparr>) state1))
                 \<lparr>updated_at := ts\<rparr>\<rparr>))))))"

text \<open>The loop of \<open>materialize\<close> over the events; the first exception ends it.\<close>

fun apply_events :: "state \<Rightarrow> dict list \<Rightarrow> error + state" where
  "apply_events state [] = Inr state"
| "apply_events state (event # rest) =
     bind (apply_event state event) (\<lambda>state1. apply_events state1 rest)"

section \<open>Canonical JSON and the projection hash (utils.py, projector.py)\<close>

text \<open>
  \<open>json.dumps(value, ensure_ascii=False, sort_keys=True, separators=(",", ":"))\<close>: the
  escapes of a string are those of the standard encoder (quote, backslash, the five
  short escapes, \<open>\u00XX\<close> for the other control characters), object members go in
  the order of their keys, and nothing separates the tokens but commas and colons.
\<close>

definition hex_digit :: "nat \<Rightarrow> char" where
  "hex_digit d = ''0123456789abcdef'' ! d"

definition escape_char :: "char \<Rightarrow> string" where
  "escape_char c =
     (if c = CHR 0x22 then [CHR 0x5C, CHR 0x22]
      else if c = CHR 0x5C then [CHR 0x5C, CHR 0x5C]
      else if c = CHR 0x0A then [CHR 0x5C, CHR ''n'']
      else if c = CHR 0x0D then [CHR 0x5C, CHR ''r'']
      else if c = CHR 0x09 then [CHR 0x5C, CHR ''t'']
      else if c = CHR 0x08 then [CHR 0x5C, CHR ''b'']
      else if c = CHR 0x0C then [CHR 0x5C, CHR ''f'']
      else if (of_char c :: nat) < 32
      then [CHR 0x5C, CHR ''u'', CHR ''0'', CHR ''0'',
            hex_digit ((of_char c :: nat) div 16), hex_digit ((of_char c :: nat) mod 16)]
      else [c])"

definition quote :: "string \<Rightarrow> string" where
  "quote s = CHR 0x22 # concat (map escape_char s) @ [CHR 0x22]"

fun join :: "string \<Rightarrow> string list \<Rightarrow> string" where
  "join sep [] = []"
| "join sep [x] = x"
| "join sep (x # y # ys) = x @ sep @ join sep (y # ys)"

function dumps :: "json \<Rightarrow> string" where
  "dumps JNull = ''null''"
| "dumps (JBool b) = (if b then ''true'' else ''false'')"
| "dumps (JInt i) = dec_int i"
| "dumps (JStr s) = quote s"
| "dumps (JArr xs) = ''['' @ join '','' (map dumps xs) @ '']''"
| "dumps (JObj d) =
     ''{'' @ join '','' (map (\<lambda>kv. quote (fst kv) @ '':'' @ dumps (snd kv)) (sort_key fst d)) @ ''}''"
  by pat_completeness auto
termination
proof (relation "measure size", goal_cases)
  case 1
  show ?case by simp
next
  case (2 xs x)
  have "y \<in> set zs \<Longrightarrow> size (y::json) < Suc (size_list size zs)" for y zs
    by (induction zs) auto
  with 2 show ?case by simp
next
  case (3 d kv)
  have "q \<in> set e \<Longrightarrow> size (snd q) < Suc (size_list (size_prod (\<lambda>_. 0) size) e)"
    for q :: "string \<times> json" and e
    by (induction e) auto
  with 3 show ?case by simp
qed

text \<open>\<open>text.encode("utf-8")\<close> on code points below 256: one byte, or two from 128 on.\<close>

definition utf8 :: "char \<Rightarrow> string" where
  "utf8 c =
     (if (of_char c :: nat) < 128 then [c]
      else [char_of (192 + (of_char c :: nat) div 64), char_of (128 + (of_char c :: nat) mod 64)])"

definition canonical_json_bytes :: "json \<Rightarrow> string" where
  "canonical_json_bytes v = concat (map utf8 (dumps v @ [CHR 0x0A]))"

text \<open>
  What the program takes from outside the repository: \<open>hashlib.sha256(b).hexdigest()\<close>,
  and \<open>str\<close> of a list or dictionary, which is Python's \<open>repr\<close>.
\<close>

record env =
  sha256_hexdigest :: "string \<Rightarrow> string"
  repr :: "json \<Rightarrow> string"

definition sha256_hex :: "env \<Rightarrow> json \<Rightarrow> string" where
  "sha256_hex env v = sha256_hexdigest env (canonical_json_bytes v)"

definition counts_json :: "(string \<times> int) list \<Rightarrow> json" where
  "counts_json cs = JObj (map (\<lambda>kv. (fst kv, JInt (snd kv))) cs)"

text \<open>
  \<open>compute_projection_hash\<close>: the hash of the dictionary made of four entries of the
  roadmap.
\<close>

definition projection_payload :: "roadmap \<Rightarrow> json" where
  "projection_payload roadmap =
     JObj [(''schema_version'', JStr (schema_version (meta roadmap))),
           (''project'',
              JObj [(''name'', JStr (name (project roadmap))),
                    (''audit_scope'', JStr (audit_scope (project roadmap)))]),
           (''tasks'', JArr (map JObj (tasks roadmap))),
           (''indexes'',
              JObj [(''by_status'', counts_json (by_status (indexes roadmap))),
                    (''by_kind'', counts_json (by_kind (indexes roadmap)))])]"

definition compute_projection_hash :: "env \<Rightarrow> roadmap \<Rightarrow> string" where
  "compute_projection_hash env roadmap = sha256_hex env (projection_payload roadmap)"

text \<open>\<open>str(v)\<close>, and \<open>_index_counts\<close>: how many tasks have each value under a key.\<close>

fun py_str :: "env \<Rightarrow> json \<Rightarrow> string" where
  "py_str env (JStr s) = s"
| "py_str env (JInt i) = dec_int i"
| "py_str env (JBool b) = (if b then ''True'' else ''False'')"
| "py_str env JNull = ''None''"
| "py_str env v = repr env v"

definition index_counts :: "env \<Rightarrow> dict list \<Rightarrow> string \<Rightarrow> (string \<times> int) list" where
  "index_counts env ts key =
     sort_key fst
       (foldl (\<lambda>out task.
                 (let v = py_str env (get_or task key (JStr ''unknown''))
                  in AList.update v ((case map_of out v of None \<Rightarrow> 0 | Some n \<Rightarrow> n) + 1) out))
          [] ts)"

section \<open>The views and \<open>materialize\<close>\<close>

text \<open>
  \<open>sorted(xs, key=...)\<close> where the keys are hashable decoded values: strings sort among
  themselves and numbers among themselves; any other pair has no order, and sorting
  two or more elements then raises \<open>TypeError\<close>. The sort is stable.
\<close>

definition py_sorted :: "('a \<Rightarrow> json) \<Rightarrow> 'a list \<Rightarrow> error + 'a list" where
  "py_sorted key xs =
     (if length xs \<le> 1 then Inr xs
      else if list_all (\<lambda>x. case key x of JStr s \<Rightarrow> True | _ \<Rightarrow> False) xs
      then Inr (sort_key (\<lambda>x. case key x of JStr s \<Rightarrow> s | _ \<Rightarrow> []) xs)
      else if list_all (\<lambda>x. int_value (key x) \<noteq> None) xs
      then Inr (sort_key (\<lambda>x. case int_value (key x) of Some i \<Rightarrow> i | None \<Rightarrow> 0) xs)
      else Inl TypeError)"

text \<open>\<open>index.setdefault(k, []).append(v)\<close> on an index keyed by hashable values.\<close>

fun group_append :: "json \<Rightarrow> json \<Rightarrow> (json \<times> json list) list \<Rightarrow> (json \<times> json list) list" where
  "group_append k v [] = [(k, [v])]"
| "group_append k v (kv # rest) =
     (if py_eq (fst kv) k then (fst kv, snd kv @ [v]) # rest else kv # group_append k v rest)"

record issues_view =
  iv_last_event_seq :: json
  iv_updated_at :: json
  iv_issues :: "dict list"
  open_by_baseline :: "(json \<times> json list) list"

record lessons_view =
  lv_updated_at :: json
  lv_lessons :: "dict list"
  by_task_kind :: "(json \<times> json list) list"
  by_enforcement_applies_to :: "(json \<times> json list) list"

text \<open>The loops of \<open>materialize\<close> that fill the indexes of the two views.\<close>

fun group_open :: "dict list \<Rightarrow> (json \<times> json list) list \<Rightarrow> error + (json \<times> json list) list" where
  "group_open [] index = Inr index"
| "group_open (issue # rest) index =
     bind (getitem issue ''status'') (\<lambda>status.
       if status \<noteq> JStr ''open'' then group_open rest index
       else
         (let b = get_or issue ''baseline_id'' JNull;
              baseline = (if truthy b then b else JStr ''unknown'')
          in if \<not> hashable baseline then Inl TypeError
             else bind (getitem issue ''issue_id'') (\<lambda>issue_id.
                    group_open rest (group_append baseline issue_id index))))"

fun group_kinds ::
  "dict \<Rightarrow> json list \<Rightarrow> (json \<times> json list) list \<Rightarrow> error + (json \<times> json list) list" where
  "group_kinds lesson [] index = Inr index"
| "group_kinds lesson (kind # rest) index =
     (if \<not> hashable kind then Inl TypeError
      else bind (getitem lesson ''lesson_id'') (\<lambda>lesson_id.
             group_kinds lesson rest (group_append kind lesson_id index)))"

fun group_lessons ::
  "dict list \<Rightarrow> (json \<times> json list) list \<times> (json \<times> json list) list \<Rightarrow>
   error + (json \<times> json list) list \<times> (json \<times> json list) list" where
  "group_lessons [] index = Inr index"
| "group_lessons (lesson # rest) index =
     bind (getitem lesson ''scope'') (\<lambda>scope.
     bind (as_dict scope) (\<lambda>sc.
     bind (py_list (get_or sc ''task_kinds'' (JArr []))) (\<lambda>kinds.
     bind (group_kinds lesson kinds (fst index)) (\<lambda>by_kind1.
     bind (getitem lesson ''enforcement'') (\<lambda>enforcement.
     bind (subscript enforcement ''applies_to'') (\<lambda>applies_to.
       if \<not> hashable applies_to then Inl TypeError
       else bind (getitem lesson ''lesson_id'') (\<lambda>lesson_id.
              group_lessons rest
                (by_kind1, group_append applies_to lesson_id (snd index)))))))))"

definition normalize_legacy_verify_status :: "json \<Rightarrow> json" where
  "normalize_legacy_verify_status status =
     (if status = JStr ''fail'' then JStr ''mismatch'' else status)"

text \<open>
  The roadmap that \<open>materialize\<close> returns: the state after the events with the indexes
  counted, the legacy verify status rewritten and the hash written into \<open>meta.run\<close>.
\<close>

definition roadmap_of :: "env \<Rightarrow> state \<Rightarrow> roadmap" where
  "roadmap_of env state =
     (let roadmap0 =
            \<lparr> meta = (meta state)
                \<lparr>run := (run (meta state))
                   \<lparr>verify_status :=
                      normalize_legacy_verify_status (verify_status (run (meta state)))\<rparr>\<rparr>,
              project = project state,
              tasks = tasks state,
              indexes = \<lparr> by_status = index_counts env (tasks state) ''status'',
                          by_kind = index_counts env (tasks state) ''task_kind'' \<rparr> \<rparr>
      in roadmap0\<lparr>meta := (meta roadmap0)
           \<lparr>run := (run (meta roadmap0))
              \<lparr>projection_hash_sha256 := compute_projection_hash env roadmap0\<rparr>\<rparr>\<rparr>)"

definition issues_view_of :: "roadmap \<Rightarrow> state \<Rightarrow> error + issues_view" where
  "issues_view_of roadmap state =
     bind (if list_ex (\<lambda>issue. \<not> has_key issue ''issue_id'') (map snd (issues state))
           then Inl (KeyError ''issue_id'')
           else py_sorted (\<lambda>issue. get_or issue ''issue_id'' JNull) (map snd (issues state)))
       (\<lambda>sorted_issues.
     bind (group_open sorted_issues []) (\<lambda>index.
     bind (py_sorted fst index) (\<lambda>sorted_index.
       Inr \<lparr> iv_last_event_seq = last_event_seq (run (meta roadmap)),
             iv_updated_at = updated_at (meta roadmap),
             iv_issues = sorted_issues,
             open_by_baseline = sorted_index \<rparr>)))"

definition lessons_view_of :: "roadmap \<Rightarrow> state \<Rightarrow> error + lessons_view" where
  "lessons_view_of roadmap state =
     bind (group_lessons (lessons state) ([], [])) (\<lambda>index.
     bind (py_sorted fst (fst index)) (\<lambda>kinds.
     bind (py_sorted fst (snd index)) (\<lambda>applies.
       Inr \<lparr> lv_updated_at = updated_at (meta roadmap),
             lv_lessons = lessons state,
             by_task_kind = kinds,
             by_enforcement_applies_to = applies \<rparr>)))"

text \<open>
  \<open>materialize\<close>. \<open>now\<close> is the wall clock at the call, which \<open>_empty_state\<close> reads.
\<close>

definition materialize ::
  "env \<Rightarrow> string \<Rightarrow> dict list \<Rightarrow> string \<Rightarrow> error + roadmap \<times> issues_view \<times> lessons_view" where
  "materialize env now events project_name =
     bind (apply_events (empty_state now project_name) events) (\<lambda>state.
       (let roadmap = roadmap_of env state
        in bind (issues_view_of roadmap state) (\<lambda>issues_view.
           bind (lessons_view_of roadmap state) (\<lambda>lessons_view.
             Inr (roadmap, issues_view, lessons_view)))))"

section \<open>Replay (service.py)\<close>

text \<open>
  \<open>str.isdigit\<close> on code points below 256 holds for the ten digits and for the
  superscripts one, two and three, which \<open>int\<close> does not read. \<open>int\<close> of a string is
  modelled on digit strings (signs, blanks and underscores are left out).
\<close>

definition is_ascii_digit :: "char \<Rightarrow> bool" where
  "is_ascii_digit c = (c \<in> set ''0123456789'')"

definition isdigit :: "string \<Rightarrow> bool" where
  "isdigit s = (s \<noteq> [] \<and> list_all (\<lambda>c. is_ascii_digit c \<or> c \<in> set [CHR 0xB2, CHR 0xB3, CHR 0xB9]) s)"

definition digit_value :: "char \<Rightarrow> int" where
  "digit_value c = int (of_char c) - 48"

definition int_of_str :: "string \<Rightarrow> error + int" where
  "int_of_str s =
     (if s \<noteq> [] \<and> list_all is_ascii_digit s
      then Inr (foldl (\<lambda>n c. 10 * n + digit_value c) 0 s)
      else Inl ValueError)"

fun py_int :: "json \<Rightarrow> error + int" where
  "py_int (JInt i) = Inr i"
| "py_int (JBool b) = Inr (if b then 1 else 0)"
| "py_int (JStr s) = int_of_str s"
| "py_int v = Inl TypeError"

text \<open>The comprehension and the loop that select the events to replay.\<close>

fun select_by_seq :: "int \<Rightarrow> dict list \<Rightarrow> error + dict list" where
  "select_by_seq seq_limit [] = Inr []"
| "select_by_seq seq_limit (ev # rest) =
     bind (getitem ev ''event_seq'') (\<lambda>v.
     bind (py_int v) (\<lambda>n.
     bind (select_by_seq seq_limit rest) (\<lambda>selected.
       Inr (if n \<le> seq_limit then ev # selected else selected))))"

fun select_by_id :: "string \<Rightarrow> dict list \<Rightarrow> error + dict list" where
  "select_by_id until [] = Inr []"
| "select_by_id until (event # rest) =
     bind (getitem event ''event_id'') (\<lambda>v.
       if v = JStr until then Inr [event]
       else bind (select_by_id until rest) (\<lambda>out. Inr (event # out)))"

definition select_events :: "string option \<Rightarrow> dict list \<Rightarrow> error + dict list" where
  "select_events until events =
     (case until of
        None \<Rightarrow> Inr events
      | Some u \<Rightarrow>
          if u = [] then Inr events
          else if isdigit u
          then bind (int_of_str u) (\<lambda>seq_limit. select_by_seq seq_limit events)
          else select_by_id u events)"

text \<open>
  \<open>ESAAService.replay\<close> on the decoded lines of the store; writing the views to disk
  is left out. It returns the dictionary the source returns.
\<close>

definition replay :: "env \<Rightarrow> string \<Rightarrow> dict option list \<Rightarrow> string option \<Rightarrow> error + dict" where
  "replay env now lines until =
     bind (parse_event_store lines) (\<lambda>events.
     bind (select_events until events) (\<lambda>selected.
     bind (materialize env now selected ''esaa-core'') (\<lambda>views.
       Inr [(''events_replayed'', JInt (int (length selected))),
            (''last_event_seq'', last_event_seq (run (meta (fst views)))),
            (''projection_hash_sha256'', JStr (projection_hash_sha256 (run (meta (fst views))))),
            (''verify_status'', JStr ''ok'')])))"

section \<open>Example inputs\<close>

text \<open>
  Events as \<open>make_event\<close> builds them, a task as \<open>_new_task\<close> leaves it, and a state
  holding given tasks.
\<close>

definition example_event :: "int \<Rightarrow> string \<Rightarrow> string \<Rightarrow> dict \<Rightarrow> dict" where
  "example_event n actor action payload =
     [(''schema_version'', JStr ''0.4.0''), (''event_id'', JStr (''EV-'' @ format_0d 8 n)),
      (''event_seq'', JInt n), (''ts'', JStr ''2026-02-23T16:44:23Z''), (''actor'', JStr actor),
      (''action'', JStr action), (''payload'', JObj payload)]"

definition example_create :: dict where
  "example_create =
     example_event 1 ''orchestrator'' ''task.create''
       [(''task_id'', JStr ''T-1''), (''task_kind'', JStr ''impl''), (''title'', JStr ''Task'')]"

definition example_target :: dict where
  "example_target = [(''task_id'', JStr ''T-1'')]"

definition example_task :: "string \<Rightarrow> string \<Rightarrow> dict" where
  "example_task st owner =
     [(''task_id'', JStr ''T-1''), (''task_kind'', JStr ''impl''), (''title'', JStr ''Task''),
      (''description'', JStr ''Task''), (''status'', JStr st), (''depends_on'', JArr []),
      (''targets'', JArr []), (''outputs'', JObj [(''files'', JArr [])]),
      (''immutability'', JObj [(''done_is_immutable'', JBool True)]),
      (''assigned_to'', JStr owner), (''started_at'', JStr ''2026-02-23T16:44:23Z'')]"

definition example_todo :: dict where
  "example_todo =
     [(''task_id'', JStr ''T-1''), (''task_kind'', JStr ''impl''), (''title'', JStr ''Task''),
      (''description'', JStr ''Task''), (''status'', JStr ''todo''), (''depends_on'', JArr []),
      (''targets'', JArr []), (''outputs'', JObj [(''files'', JArr [])]),
      (''immutability'', JObj [(''done_is_immutable'', JBool True)])]"

definition example_legacy :: dict where
  "example_legacy =
     [(''event_seq'', JInt 1), (''ts'', JStr ''2026-02-23T16:44:23Z''),
      (''actor'', JStr ''orchestrator''), (''action'', JStr ''run.init''),
      (''data'', JObj [(''run_id'', JStr ''RUN-1''), (''master_correlation_id'', JStr ''CID-1'')])]"

definition example_seq :: "json \<Rightarrow> dict" where
  "example_seq v =
     [(''schema_version'', JStr ''0.4.0''), (''event_id'', JStr ''EV-00000001''),
      (''event_seq'', v), (''ts'', JStr ''2026-02-23T16:44:23Z''),
      (''actor'', JStr ''orchestrator''), (''action'', JStr ''run.start''), (''payload'', JObj [])]"

definition example_issue :: dict where
  "example_issue =
     [(''issue_id'', JStr ''I-1''), (''status'', JStr ''resolved''), (''severity'', JStr ''medium''),
      (''title'', JStr ''I-1''), (''baseline_id'', JStr ''B-001''),
      (''affected'', JObj [(''baseline_id'', JStr ''B-001'')]), (''evidence'', JObj []),
      (''resolution'', JObj []),
      (''links'', JObj [(''reported_by_task_id'', JNull), (''fixes_task_id'', JNull),
                        (''hotfix_task_id'', JNull)]),
      (''timeline'', JObj [(''created_event_seq'', JInt 1), (''resolved_event_seq'', JInt 2)])]"

definition example_report :: dict where
  "example_report =
     example_event 3 ''agent-qa'' ''issue.report''
       [(''issue_id'', JStr ''I-1''), (''severity'', JStr ''high''),
        (''affected'', JObj [(''baseline_id'', JStr ''B-002'')])]"

text \<open>
  A stand-in for what comes from outside: the digest is the identity on the bytes, the
  \<open>repr\<close> of a container the empty string.
\<close>

definition example_env :: env where
  "example_env = \<lparr> sha256_hexdigest = (\<lambda>b. b), repr = (\<lambda>v. []) \<rparr>"

definition example_events :: "dict list" where
  "example_events =
     [example_create,
      example_event 2 ''agent-a'' ''claim'' example_target,
      example_event 3 ''agent-a'' ''complete'' example_target]"

definition example_state :: "dict list \<Rightarrow> state" where
  "example_state ts = (empty_state ''2026-02-23T16:44:23Z'' ''esaa-core'')\<lparr>tasks := ts\<rparr>"

section \<open>How events change the task list\<close>

text \<open>
  One event leaves the task list as it is, appends a task, or rewrites one task that
  is not done, keeping its identifier and leaving it in progress, in review or done.
  A task is locked at a position when the lookup of its identifier resolves there and
  its status is one of these three.
\<close>

definition task_step :: "dict list \<Rightarrow> dict list \<Rightarrow> bool" where
  "task_step ts ts' \<longleftrightarrow>
     ts' = ts \<or> (\<exists>t. ts' = ts @ [t]) \<or>
     (\<exists>j t'. j < length ts \<and> ts' = ts[j := t'] \<and>
        map_of t' ''task_id'' = map_of (ts ! j) ''task_id'' \<and>
        map_of (ts ! j) ''status'' \<noteq> Some (JStr ''done'') \<and>
        (\<exists>st \<in> {''in_progress'', ''review'', ''done''}. map_of t' ''status'' = Some (JStr st)))"

definition locked_at :: "dict list \<Rightarrow> json \<Rightarrow> nat \<Rightarrow> bool" where
  "locked_at ts tid i \<longleftrightarrow>
     task_by_id ts tid = Inr (i, ts ! i) \<and>
     (\<exists>st \<in> {''in_progress'', ''review'', ''done''}. map_of (ts ! i) ''status'' = Some (JStr st))"

text \<open>
  The state with another \<open>meta.updated_at\<close>, and the hash a materialization stores in
  \<open>meta.run\<close> of its roadmap (or the exception it raised).
\<close>

definition set_updated_at :: "json \<Rightarrow> state \<Rightarrow> state" where
  "set_updated_at t s = s\<lparr>meta := (meta s)\<lparr>updated_at := t\<rparr>\<rparr>"

definition stored_hash :: "error + roadmap \<times> issues_view \<times> lessons_view \<Rightarrow> error + string" where
  "stored_hash result = map_sum id (\<lambda>views. projection_hash_sha256 (run (meta (fst views)))) result"

section \<open>Basic facts\<close>

lemma bind_Inl [simp]: "bind (Inl e) f = Inl e"
  by (simp add: bind_def)

lemma bind_Inr [simp]: "bind (Inr v) f = f v"
  by (simp add: bind_def)

lemma bind_eq_Inr: "bind m f = Inr y \<longleftrightarrow> (\<exists>v. m = Inr v \<and> f v = Inr y)"
  by (cases m) simp_all

lemmas example_defs = example_event_def example_create_def example_target_def example_task_def
  example_todo_def example_state_def

lemmas projector_defs = apply_event_def dispatch_def apply_claim_def apply_complete_def
  apply_review_def ensure_owner_def new_task_def in_strs_def getitem_def get_or_def has_key_def
  set_run_def empty_state_def

lemma task_by_id_sound:
  "task_by_id ts tid = Inr (i, t) \<Longrightarrow> i < length ts \<and> ts ! i = t"
proof (induction ts arbitrary: i)
  case Nil
  then show ?case by simp
next
  case (Cons a ts)
  then show ?case
    by (auto simp: bind_eq_Inr split: if_splits)
qed

lemma tasks_set_run [simp]: "tasks (set_run f s) = tasks s"
  by (simp add: set_run_def)

lemma getitem_eq_Inr: "getitem d k = Inr v \<longleftrightarrow> map_of d k = Some v"
  by (simp add: getitem_def split: option.splits)



lemma task_stepI:
  assumes "task_by_id ts tid = Inr (j, task)" "map_of task ''status'' = Some st" "st \<noteq> JStr ''done''"
    "map_of t' ''task_id'' = map_of task ''task_id''"
    "\<exists>st \<in> {''in_progress'', ''review'', ''done''}. map_of t' ''status'' = Some (JStr st)"
  shows "task_step ts (ts[j := t'])"
  unfolding task_step_def using task_by_id_sound [OF assms(1)] assms(2-)
  by (intro disjI2 exI [of _ j] exI [of _ t']) auto

lemma apply_claim_step:
  assumes "apply_claim s e = Inr s'"
  shows "task_step (tasks s) (tasks s')"
  using assms
  by (auto simp: apply_claim_def bind_eq_Inr getitem_eq_Inr update_conv' split: if_splits
      intro!: task_stepI)

lemma apply_complete_step:
  assumes "apply_complete s e = Inr s'"
  shows "task_step (tasks s) (tasks s')"
  using assms
  by (auto simp: apply_complete_def bind_eq_Inr getitem_eq_Inr update_conv' Let_def split: if_splits
      intro!: task_stepI)

lemma apply_review_step:
  assumes "apply_review s e = Inr s'"
  shows "task_step (tasks s) (tasks s')"
  using assms
  by (auto simp: apply_review_def bind_eq_Inr getitem_eq_Inr update_conv' Let_def split: if_splits
      intro!: task_stepI)

lemma apply_issue_report_tasks: "apply_issue_report s e = Inr s' \<Longrightarrow> tasks s' = tasks s"
  by (auto simp: apply_issue_report_def bind_eq_Inr Let_def split: if_splits)

lemma apply_issue_resolve_tasks: "apply_issue_resolve s e = Inr s' \<Longrightarrow> tasks s' = tasks s"
  by (auto simp: apply_issue_resolve_def bind_eq_Inr Let_def split: if_splits option.splits)

lemma apply_hotfix_create_tasks:
  "apply_hotfix_create s e = Inr s' \<Longrightarrow> \<exists>t. tasks s' = tasks s @ [t]"
  by (auto simp: apply_hotfix_create_def bind_eq_Inr Let_def split: if_splits option.splits)

lemma dispatch_step:
  assumes "dispatch s e action payload = Inr s'"
  shows "task_step (tasks s) (tasks s')"
proof -
  consider "tasks s' = tasks s" | t where "tasks s' = tasks s @ [t]"
    | "apply_claim s e = Inr s'" | "apply_complete s e = Inr s'" | "apply_review s e = Inr s'"
    using assms apply_issue_report_tasks [of s e s'] apply_issue_resolve_tasks [of s e s']
      apply_hotfix_create_tasks [of s e s']
    by (auto simp: dispatch_def bind_eq_Inr split: if_splits)
  then show ?thesis
  proof cases
    case 1
    then show ?thesis by (simp add: task_step_def)
  next
    case 2
    then show ?thesis by (simp add: task_step_def)
  next
    case 3
    then show ?thesis by (rule apply_claim_step)
  next
    case 4
    then show ?thesis by (rule apply_complete_step)
  next
    case 5
    then show ?thesis by (rule apply_review_step)
  qed
qed

lemma apply_event_step:
  assumes "apply_event s e = Inr s'"
  shows "task_step (tasks s) (tasks s')"
  using assms
  by (auto simp: apply_event_def bind_eq_Inr dest: dispatch_step)

lemma task_step_done:
  assumes "task_step ts ts'" "j < length ts" "map_of (ts ! j) ''status'' = Some (JStr ''done'')"
  shows "j < length ts' \<and> ts' ! j = ts ! j"
  using assms by (auto simp: task_step_def nth_append nth_list_update)

lemma apply_events_done:
  "apply_events s es = Inr s' \<Longrightarrow> j < length (tasks s) \<Longrightarrow>
   map_of (tasks s ! j) ''status'' = Some (JStr ''done'') \<Longrightarrow>
   j < length (tasks s') \<and> tasks s' ! j = tasks s ! j"
proof (induction es arbitrary: s)
  case Nil
  then show ?case by simp
next
  case (Cons e es)
  from Cons.prems(1) obtain s1 where e: "apply_event s e = Inr s1" and es: "apply_events s1 es = Inr s'"
    by (auto simp: bind_eq_Inr)
  from task_step_done [OF apply_event_step [OF e] Cons.prems(2,3)]
  have "j < length (tasks s1)" "tasks s1 ! j = tasks s ! j" by simp_all
  with Cons.IH [OF es] Cons.prems(3) show ?case by simp
qed

lemma task_by_id_append:
  "task_by_id ts tid = Inr r \<Longrightarrow> task_by_id (ts @ [t]) tid = Inr r"
proof (induction ts arbitrary: r)
  case Nil
  then show ?case by simp
next
  case (Cons a ts)
  then show ?case
    by (auto simp: bind_eq_Inr split: if_splits)
qed

lemma getitem_cong: "map_of d k = map_of d' k \<Longrightarrow> getitem d k = getitem d' k"
  by (simp add: getitem_def)

lemma task_by_id_update:
  "task_by_id ts tid = Inr (i, x) \<Longrightarrow> j < length ts \<Longrightarrow>
   map_of t' ''task_id'' = map_of (ts ! j) ''task_id'' \<Longrightarrow>
   task_by_id (ts[j := t']) tid = Inr (i, ts[j := t'] ! i)"
proof (induction ts arbitrary: i j x)
  case Nil
  then show ?case by simp
next
  case (Cons a ts)
  from Cons.prems(1) obtain v where v: "getitem a ''task_id'' = Inr v"
    by (auto simp: bind_eq_Inr)
  show ?case
  proof (cases j)
    case 0
    with Cons.prems(3) have same: "getitem t' ''task_id'' = Inr v"
      using v by (simp add: getitem_def)
    show ?thesis
    proof (cases "py_eq v tid")
      case True
      with v Cons.prems(1) have "i = 0" by simp
      with True same 0 show ?thesis by simp
    next
      case False
      with v Cons.prems(1) obtain i' where i': "task_by_id ts tid = Inr (i', x)" "i = Suc i'"
        by (auto simp: bind_eq_Inr)
      from task_by_id_sound [OF i'(1)] have "ts ! i' = x" by simp
      with False same 0 i' show ?thesis by simp
    qed
  next
    case (Suc k)
    show ?thesis
    proof (cases "py_eq v tid")
      case True
      with v Cons.prems(1) have "i = 0" by simp
      with True v Suc show ?thesis by simp
    next
      case False
      with v Cons.prems(1) obtain i' where i': "task_by_id ts tid = Inr (i', x)" "i = Suc i'"
        by (auto simp: bind_eq_Inr)
      from Cons.prems(2,3) Suc have "k < length ts" "map_of t' ''task_id'' = map_of (ts ! k) ''task_id''"
        by simp_all
      from Cons.IH [OF i'(1) this] False v Suc i'(2) show ?thesis by simp
    qed
  qed
qed

lemma task_step_locked:
  assumes "task_step ts ts'" "locked_at ts tid i"
  shows "locked_at ts' tid i"
proof -
  from assms(2) have found: "task_by_id ts tid = Inr (i, ts ! i)" and
    st: "\<exists>st \<in> {''in_progress'', ''review'', ''done''}. map_of (ts ! i) ''status'' = Some (JStr st)"
    by (simp_all add: locked_at_def)
  from task_by_id_sound [OF found] have i: "i < length ts" by simp
  from assms(1) consider "ts' = ts" | t where "ts' = ts @ [t]"
    | j t' where "j < length ts" "ts' = ts[j := t']"
        "map_of t' ''task_id'' = map_of (ts ! j) ''task_id''"
        "\<exists>st \<in> {''in_progress'', ''review'', ''done''}. map_of t' ''status'' = Some (JStr st)"
    unfolding task_step_def by blast
  then show ?thesis
  proof cases
    case 1
    with assms(2) show ?thesis by simp
  next
    case 2
    with task_by_id_append [OF found, of t] st i show ?thesis
      by (simp add: locked_at_def nth_append)
  next
    case 3
    from task_by_id_update [OF found 3(1,3)] 3(2)
    have "task_by_id ts' tid = Inr (i, ts' ! i)" by simp
    moreover have "\<exists>st \<in> {''in_progress'', ''review'', ''done''}. map_of (ts' ! i) ''status'' = Some (JStr st)"
      using 3 st i by (cases "i = j") simp_all
    ultimately show ?thesis by (simp add: locked_at_def)
  qed
qed

lemma apply_events_locked:
  "apply_events s es = Inr s' \<Longrightarrow> locked_at (tasks s) tid i \<Longrightarrow> locked_at (tasks s') tid i"
proof (induction es arbitrary: s)
  case Nil
  then show ?case by simp
next
  case (Cons e es)
  from Cons.prems(1) obtain s1 where e: "apply_event s e = Inr s1" and es: "apply_events s1 es = Inr s'"
    by (auto simp: bind_eq_Inr)
  from Cons.IH [OF es task_step_locked [OF apply_event_step [OF e] Cons.prems(2)]]
  show ?case .
qed


lemma claim_locked:
  assumes "locked_at (tasks s) tid i" "getitem c ''action'' = Inr (JStr ''claim'')"
    "getitem c ''payload'' = Inr (JObj q)" "getitem q ''task_id'' = Inr tid"
  shows "apply_event s c =
           Inl (ESAAError (if getitem (tasks s ! i) ''status'' = Inr (JStr ''done'')
                           then ''IMMUTABLE_DONE'' else ''LOCKED_TASK''))"
proof -
  from assms(1) obtain st where found: "task_by_id (tasks s) tid = Inr (i, tasks s ! i)"
    and st: "st \<in> {''in_progress'', ''review'', ''done''}"
      "getitem (tasks s ! i) ''status'' = Inr (JStr st)"
    by (auto simp: locked_at_def getitem_eq_Inr)
  with assms(2-) show ?thesis
    by (auto simp: apply_event_def dispatch_def apply_claim_def in_strs_def)
qed

lemma task_exists_found: "task_by_id ts tid = Inr r \<Longrightarrow> task_exists ts tid = Inr True"
proof (induction ts arbitrary: r)
  case Nil
  then show ?case by simp
next
  case (Cons a ts)
  then show ?case by (auto simp: bind_eq_Inr split: if_splits)
qed

lemma format_0d_8_1: "format_0d 8 1 = ''00000001''"
  by (simp add: format_0d_def zfill_def dec_nat.simps digit_char_def eval_nat_numeral)

lemma check_event_Inr: "check_event seen e = Inr e' \<Longrightarrow> e' = e"
  by (auto simp: check_event_def Let_def bind_eq_Inr split: if_splits)

lemma get_or_with_event_id [simp]:
  "get_or (with_event_id n e) ''event_seq'' d = get_or e ''event_seq'' d"
  by (simp add: with_event_id_def get_or_def update_conv')

lemma parse_line_seq:
  assumes "parse_line seen lst line = Inr ev"
  shows "int_value (get_or ev ''event_seq'' JNull) = Some (lst + 1)"
proof -
  from assms obtain raw event where "line = Some raw" "normalize_legacy_event raw = Inr event"
    and tail: "(case int_value (get_or event ''event_seq'' JNull) of
              None \<Rightarrow> Inl (CorruptedStoreError ''EVENT_SEQ_INVALID'')
            | Some event_seq \<Rightarrow>
                if event_seq \<noteq> lst + 1
                then Inl (CorruptedStoreError ''EVENT_SEQ_NON_MONOTONIC'')
                else check_event seen (with_event_id event_seq event)) = Inr ev"
    by (cases line) (auto simp: parse_line_def bind_eq_Inr)
  from tail obtain n where n: "int_value (get_or event ''event_seq'' JNull) = Some n"
    by (cases "int_value (get_or event ''event_seq'' JNull)") simp_all
  with tail have "n = lst + 1" "check_event seen (with_event_id n event) = Inr ev"
    by (simp_all split: if_splits)
  with check_event_Inr [of seen "with_event_id n event" ev] n show ?thesis
    by simp
qed

lemma parse_loop_seq:
  "parse_loop acc seen lst lines = Inr events \<Longrightarrow>
   \<exists>new. events = acc @ new \<and> length new = length lines \<and>
     (\<forall>i<length new. int_value (get_or (new ! i) ''event_seq'' JNull) = Some (lst + 1 + int i))"
proof (induction lines arbitrary: acc seen lst)
  case Nil
  then show ?case by simp
next
  case (Cons line rest)
  from Cons.prems obtain ev where ev: "parse_line seen lst line = Inr ev"
    and rest: "parse_loop (acc @ [ev]) (get_or ev ''event_id'' JNull # seen) (lst + 1) rest = Inr events"
    by (auto simp: bind_eq_Inr)
  from Cons.IH [OF rest] obtain new where new: "events = (acc @ [ev]) @ new" "length new = length rest"
    "\<forall>i<length new. int_value (get_or (new ! i) ''event_seq'' JNull) = Some (lst + 1 + 1 + int i)"
    by blast
  have "\<forall>i<length (ev # new). int_value (get_or ((ev # new) ! i) ''event_seq'' JNull) = Some (lst + 1 + int i)"
  proof (intro allI impI)
    fix i assume "i < length (ev # new)"
    then show "int_value (get_or ((ev # new) ! i) ''event_seq'' JNull) = Some (lst + 1 + int i)"
      using parse_line_seq [OF ev] new(3) by (cases i) auto
  qed
  with new(1,2) show ?case
    by (intro exI [of _ "ev # new"]) simp
qed

lemma parse_event_store_seq:
  assumes "parse_event_store lines = Inr events"
  shows "length events = length lines"
    and "i < length events \<Longrightarrow> int_value (get_or (events ! i) ''event_seq'' JNull) = Some (int i + 1)"
  using parse_loop_seq [OF assms [unfolded parse_event_store_def]] by auto

lemma parse_line_seq_invalid:
  "normalize_legacy_event raw = Inr event \<Longrightarrow> int_value (get_or event ''event_seq'' JNull) = None \<Longrightarrow>
   parse_line seen lst (Some raw) = Inl (CorruptedStoreError ''EVENT_SEQ_INVALID'')"
  by (simp add: parse_line_def)

lemma parse_line_seq_non_monotonic:
  "normalize_legacy_event raw = Inr event \<Longrightarrow> int_value (get_or event ''event_seq'' JNull) = Some n \<Longrightarrow>
   n \<noteq> lst + 1 \<Longrightarrow>
   parse_line seen lst (Some raw) = Inl (CorruptedStoreError ''EVENT_SEQ_NON_MONOTONIC'')"
  by (simp add: parse_line_def)

lemma issues_get_set:
  "issues_get xs k = Some v \<Longrightarrow> issues_get (issues_set k v' xs) k = Some v'"
  by (induction xs) (auto split: if_splits)

lemma touch_issue_Inr:
  assumes "touch_issue p issue = Inr issue'"
  shows "getitem issue' ''status'' = Inr (JStr ''open'')
       \<and> getitem issue' ''severity'' = Inr (get_or p ''severity'' (get_or issue ''severity'' JNull))
       \<and> getitem issue' ''title'' = Inr (get_or p ''title'' (get_or issue ''title'' JNull))
       \<and> getitem issue' ''evidence'' = Inr (get_or p ''evidence'' (get_or issue ''evidence'' (JObj [])))
       \<and> (\<forall>k. k \<notin> {''status'', ''severity'', ''title'', ''evidence''}
              \<longrightarrow> map_of issue' k = map_of issue k)"
proof -
  from assms obtain severity title where
    sev: "map_of issue ''severity'' = Some severity" and tit: "map_of issue ''title'' = Some title"
    and m: "map_of issue' = (map_of issue)(''status'' \<mapsto> JStr ''open'',
        ''severity'' \<mapsto> get_or p ''severity'' severity, ''title'' \<mapsto> get_or p ''title'' title,
        ''evidence'' \<mapsto> get_or p ''evidence'' (get_or issue ''evidence'' (JObj [])))"
    unfolding touch_issue_def Let_def bind_eq_Inr getitem_eq_Inr
    by (auto simp: update_conv' get_or_def)
  from sev tit have "get_or issue ''severity'' JNull = severity" "get_or issue ''title'' JNull = title"
    by (simp_all add: get_or_def)
  with m show ?thesis
    by (simp add: getitem_eq_Inr)
qed

lemma map_sum_bind: "map_sum id f (bind m g) = bind m (\<lambda>x. map_sum id f (g x))"
  by (cases m) simp_all

lemma set_updated_at_simps [simp]:
  "tasks (set_updated_at t s) = tasks s"
  "issues (set_updated_at t s) = issues s"
  "lessons (set_updated_at t s) = lessons s"
  "project (set_updated_at t s) = project s"
  "run (meta (set_updated_at t s)) = run (meta s)"
  "schema_version (meta (set_updated_at t s)) = schema_version (meta s)"
  by (simp_all add: set_updated_at_def)

lemmas updated_at_simps = map_sum_bind if_distrib [of "map_sum id (set_updated_at t)" for t]
  Let_def

lemma upd_tasks [simp]:
  "(set_updated_at t s)\<lparr>tasks := x\<rparr> = set_updated_at t (s\<lparr>tasks := x\<rparr>)"
  "(set_updated_at t s)\<lparr>issues := y\<rparr> = set_updated_at t (s\<lparr>issues := y\<rparr>)"
  "(set_updated_at t s)\<lparr>lessons := z\<rparr> = set_updated_at t (s\<lparr>lessons := z\<rparr>)"
  by (simp_all add: set_updated_at_def)

lemma apply_claim_updated_at:
  "apply_claim (set_updated_at t s) e = map_sum id (set_updated_at t) (apply_claim s e)"
  by (simp add: apply_claim_def updated_at_simps cong: if_cong)

lemma apply_complete_updated_at:
  "apply_complete (set_updated_at t s) e = map_sum id (set_updated_at t) (apply_complete s e)"
  by (simp add: apply_complete_def updated_at_simps cong: if_cong)

lemma apply_review_updated_at:
  "apply_review (set_updated_at t s) e = map_sum id (set_updated_at t) (apply_review s e)"
  by (simp add: apply_review_def updated_at_simps cong: if_cong)

lemma apply_issue_report_updated_at:
  "apply_issue_report (set_updated_at t s) e = map_sum id (set_updated_at t) (apply_issue_report s e)"
  by (simp add: apply_issue_report_def updated_at_simps cong: if_cong)

lemma apply_hotfix_create_updated_at:
  "apply_hotfix_create (set_updated_at t s) e = map_sum id (set_updated_at t) (apply_hotfix_create s e)"
  by (simp add: apply_hotfix_create_def updated_at_simps option.case_distrib [of "map_sum id (set_updated_at t)"]
      cong: if_cong option.case_cong)

lemma apply_issue_resolve_updated_at:
  "apply_issue_resolve (set_updated_at t s) e = map_sum id (set_updated_at t) (apply_issue_resolve s e)"
  by (simp add: apply_issue_resolve_def updated_at_simps option.case_distrib [of "map_sum id (set_updated_at t)"]
      cong: if_cong option.case_cong)


lemma set_run_updated_at [simp]:
  "set_run f (set_updated_at t s) = set_updated_at t (set_run f s)"
  by (simp add: set_run_def set_updated_at_def)

lemma upd_meta [simp]:
  "(set_updated_at t s)\<lparr>meta := (meta (set_updated_at t s))\<lparr>master_correlation_id := c\<rparr>\<rparr>
     = set_updated_at t (s\<lparr>meta := (meta s)\<lparr>master_correlation_id := c\<rparr>\<rparr>)"
  by (simp add: set_updated_at_def)

lemma dispatch_updated_at:
  "dispatch (set_updated_at t s) e a p = map_sum id (set_updated_at t) (dispatch s e a p)"
  by (simp add: dispatch_def updated_at_simps apply_claim_updated_at apply_complete_updated_at
      apply_review_updated_at apply_issue_report_updated_at apply_hotfix_create_updated_at
      apply_issue_resolve_updated_at cong: if_cong)

lemma apply_event_updated_at: "apply_event (set_updated_at t s) e = apply_event s e"
proof -
  have "bind (map_sum id (set_updated_at t) m) f = bind m (\<lambda>x. f (set_updated_at t x))"
    for m :: "error + state" and f :: "state \<Rightarrow> error + state"
    by (cases m) simp_all
  then show ?thesis
    by (simp add: apply_event_def dispatch_updated_at) (simp add: set_updated_at_def set_run_def)
qed

lemma apply_events_updated_at:
  "apply_events (set_updated_at t s) es =
     (if es = [] then Inr (set_updated_at t s) else apply_events s es)"
  by (cases es) (simp_all add: apply_event_updated_at)

lemma empty_state_now: "empty_state now p = set_updated_at (JStr now) (empty_state now' p)"
  by (simp add: empty_state_def set_updated_at_def)

lemma roadmap_of_hash:
  "projection_hash_sha256 (run (meta (roadmap_of env s))) = compute_projection_hash env (roadmap_of env s)"
  by (simp add: roadmap_of_def Let_def compute_projection_hash_def projection_payload_def)

lemma roadmap_of_updated_at:
  "roadmap_of env (set_updated_at t s) = (roadmap_of env s)\<lparr>meta := (meta (roadmap_of env s))\<lparr>updated_at := t\<rparr>\<rparr>"
  by (simp add: roadmap_of_def Let_def set_updated_at_def compute_projection_hash_def projection_payload_def)


lemma issues_view_of_updated_at:
  "issues_view_of (r\<lparr>meta := (meta r)\<lparr>updated_at := t\<rparr>\<rparr>) (set_updated_at t s)
     = map_sum id (\<lambda>v. v\<lparr>iv_updated_at := t\<rparr>) (issues_view_of r s)"
  by (simp add: issues_view_of_def map_sum_bind)

lemma lessons_view_of_updated_at:
  "lessons_view_of (r\<lparr>meta := (meta r)\<lparr>updated_at := t\<rparr>\<rparr>) (set_updated_at t s)
     = map_sum id (\<lambda>v. v\<lparr>lv_updated_at := t\<rparr>) (lessons_view_of r s)"
  by (simp add: lessons_view_of_def map_sum_bind)

lemma materialize_now:
  "stored_hash (materialize env now es p) = stored_hash (materialize env now' es p)"
proof (cases "es = []")
  case False
  then show ?thesis
    by (simp add: materialize_def empty_state_now [of now p now'] apply_events_updated_at)
next
  case True
  let ?s = "empty_state now' p"
  let ?t = "JStr now"
  have "stored_hash (materialize env now [] p) = stored_hash (materialize env now' [] p)"
    unfolding materialize_def empty_state_now [of now p now'] stored_hash_def
    by (cases "issues_view_of (roadmap_of env ?s) ?s"; cases "lessons_view_of (roadmap_of env ?s) ?s")
      (simp_all add: Let_def roadmap_of_updated_at issues_view_of_updated_at lessons_view_of_updated_at
        roadmap_of_hash compute_projection_hash_def projection_payload_def)
  with True show ?thesis by simp
qed


lemma int_value_py_int: "int_value v = Some n \<Longrightarrow> py_int v = Inr n"
  by (cases v) (auto split: if_splits)

lemma int_value_getitem:
  "int_value (get_or ev k JNull) = Some n \<Longrightarrow> getitem ev k = Inr (get_or ev k JNull)"
  by (auto simp: get_or_def getitem_def split: option.splits)

lemma select_by_seq_take:
  "(\<forall>i<length evs. int_value (get_or (evs ! i) ''event_seq'' JNull) = Some (base + 1 + int i)) \<Longrightarrow>
   select_by_seq lim evs = Inr (take (nat (lim - base)) evs)"
proof (induction evs arbitrary: base)
  case Nil
  then show ?case by simp
next
  case (Cons ev rest)
  from Cons.prems have ev: "int_value (get_or ev ''event_seq'' JNull) = Some (base + 1)"
    by fastforce
  have "\<forall>i<length rest. int_value (get_or (rest ! i) ''event_seq'' JNull) = Some (base + 1 + 1 + int i)"
  proof (intro allI impI)
    fix i assume "i < length rest"
    with Cons.prems have "int_value (get_or ((ev # rest) ! Suc i) ''event_seq'' JNull)
        = Some (base + 1 + int (Suc i))"
      by (metis Suc_less_eq length_Cons)
    then show "int_value (get_or (rest ! i) ''event_seq'' JNull) = Some (base + 1 + 1 + int i)"
      by (simp add: algebra_simps)
  qed
  from Cons.IH [OF this] have rest: "select_by_seq lim rest = Inr (take (nat (lim - (base + 1))) rest)" .
  show ?case
  proof (cases "base + 1 \<le> lim")
    case True
    then have "nat (lim - base) = Suc (nat (lim - (base + 1)))" by simp
    with True rest ev show ?thesis
      by (simp add: int_value_getitem int_value_py_int)
  next
    case False
    then have "nat (lim - base) = 0" "nat (lim - (base + 1)) = 0" by simp_all
    with False rest ev show ?thesis
      by (simp add: int_value_getitem int_value_py_int)
  qed
qed

lemma digit_char_facts:
  assumes "d < 10"
  shows "is_ascii_digit (digit_char d) \<and> digit_value (digit_char d) = int d"
proof -
  from assms have "d = 0 \<or> d = 1 \<or> d = 2 \<or> d = 3 \<or> d = 4 \<or> d = 5 \<or> d = 6 \<or> d = 7
    \<or> d = 8 \<or> d = 9"
    by presburger
  then show ?thesis
    by (elim disjE) (simp_all add: digit_char_def is_ascii_digit_def digit_value_def)
qed

lemma dec_nat_digits:
  "dec_nat n \<noteq> [] \<and> list_all is_ascii_digit (dec_nat n)
   \<and> foldl (\<lambda>m c. 10 * m + digit_value c) 0 (dec_nat n) = int n"
proof (induction n rule: dec_nat.induct)
  case (1 n)
  show ?case
  proof (cases "n < 10")
    case True
    then show ?thesis
      by (subst (1 2 3) dec_nat.simps) (simp add: digit_char_facts)
  next
    case False
    with 1 have ih: "dec_nat (n div 10) \<noteq> []" "list_all is_ascii_digit (dec_nat (n div 10))"
      "foldl (\<lambda>m c. 10 * m + digit_value c) 0 (dec_nat (n div 10)) = int (n div 10)"
      by simp_all
    have "n mod 10 < 10" by simp
    from digit_char_facts [OF this] ih False show ?thesis
      by (subst (1 2 3) dec_nat.simps) (simp add: zdiv_int zmod_int)
  qed
qed

lemma int_of_str_dec_nat: "int_of_str (dec_nat k) = Inr (int k)"
  using dec_nat_digits [of k] by (simp add: int_of_str_def)

lemma isdigit_dec_nat: "isdigit (dec_nat k)"
  using dec_nat_digits [of k] by (auto simp: isdigit_def list_all_iff)

lemma sort_key_fst_unique:
  fixes d d' :: "(string \<times> 'a) list"
  assumes "distinct (map fst d)" "distinct (map fst d')" "set d' = set d"
  shows "sort_key fst d' = sort_key fst d"
proof -
  let ?xs = "sort_key fst d" and ?ys = "sort_key fst d'"
  from assms(1) have inj: "inj_on fst (set d)" and dd: "distinct d"
    by (simp_all add: distinct_map)
  from assms(2) have dd': "distinct d'"
    by (simp add: distinct_map)
  have "distinct (map fst ?xs)" "distinct (map fst ?ys)"
    using inj dd dd' assms(3) by (simp_all add: distinct_map)
  moreover have "sorted (map fst ?xs)" "sorted (map fst ?ys)"
    by simp_all
  moreover have "set (map fst ?xs) = set (map fst ?ys)"
    using assms(3) by simp
  ultimately have keys: "map fst ?xs = map fst ?ys"
    by (intro sorted_distinct_set_unique)
  then have len: "length ?xs = length ?ys"
    by (rule map_eq_imp_length_eq)
  have "?ys ! i = ?xs ! i" if "i < length ?ys" for i
  proof -
    from that len have "?xs ! i \<in> set d" "?ys ! i \<in> set d"
      using assms(3) nth_mem [of i ?xs] nth_mem [of i ?ys] by simp_all
    moreover from keys that len have "fst (?xs ! i) = fst (?ys ! i)"
      by (metis nth_map)
    ultimately show ?thesis
      using inj by (simp add: inj_on_def)
  qed
  with len show ?thesis
    by (intro nth_equalityI) simp_all
qed

lemma dumps_key_order:
  assumes "distinct (map fst d)" "distinct (map fst d')" "set d' = set d"
  shows "dumps (JObj d') = dumps (JObj d)"
  using sort_key_fst_unique [OF assms] by simp

section \<open>Safe paths\<close>

text \<open>
  C3. The validator is to raise \<open>BOUNDARY_VIOLATION\<close> for an absolute path and for a path
  with a \<open>..\<close> component. \<open>normalize_rel_path\<close> strips every leading dot and slash before
  the checks run, so an absolute path and a path that climbs out with leading \<open>..\<close>
  components come back as the relative path that is left, and the boundary check
  treats them as it treats that path: whatever contract accepts \<open>docs/spec/T-1000.md\<close>
  accepts the other two.
\<close>

theorem validate_safe_path_leading_stripped:
  "validate_safe_path ''/docs/spec/T-1000.md'' = Inr ''docs/spec/T-1000.md''
   \<and> validate_safe_path ''../../docs/spec/T-1000.md'' = Inr ''docs/spec/T-1000.md''
   \<and> validate_boundaries fnmatch b (''/docs/spec/T-1000.md'' # rest)
       = validate_boundaries fnmatch b (''docs/spec/T-1000.md'' # rest)
   \<and> validate_boundaries fnmatch b (''../../docs/spec/T-1000.md'' # rest)
       = validate_boundaries fnmatch b (''docs/spec/T-1000.md'' # rest)"
  by (simp add: validate_safe_path_def normalize_rel_path_def lstrip_def replace_char_def
      startswith_def posix_parts_def posix_root_def)

text \<open>What the checks still catch: the empty path and a \<open>..\<close> after the first component.\<close>

lemma validate_safe_path_inner_dotdot:
  "validate_safe_path [] = Inl (ESAAError ''BOUNDARY_VIOLATION'')
   \<and> validate_safe_path ''docs/../src/x.py'' = Inl (ESAAError ''BOUNDARY_VIOLATION'')"
  by (simp add: validate_safe_path_def normalize_rel_path_def lstrip_def replace_char_def
      startswith_def posix_parts_def posix_root_def)

section \<open>Lock ownership\<close>

text \<open>
  C6, as stated: a \<open>complete\<close> or \<open>review\<close> whose actor is not the task's \<open>assigned_to\<close>
  raises \<open>NOT_LOCK_OWNER\<close>. It does not when the task is in another status: the status
  checks come first. Here agent-a holds a task that is in review, and a \<open>complete\<close> by
  agent-b raises \<open>INVALID_TRANSITION\<close>.
\<close>

theorem not_lock_owner_counterexample:
  "map_sum id
     (\<lambda>s. map (\<lambda>t. (get_or t ''status'' JNull, get_or t ''assigned_to'' JNull)) (tasks s))
     (apply_events (empty_state ''now'' ''esaa-core'')
        [example_create,
         example_event 2 ''agent-a'' ''claim'' example_target,
         example_event 3 ''agent-a'' ''complete'' example_target])
     = Inr [(JStr ''review'', JStr ''agent-a'')]
   \<and> apply_events (empty_state ''now'' ''esaa-core'')
        [example_create,
         example_event 2 ''agent-a'' ''claim'' example_target,
         example_event 3 ''agent-a'' ''complete'' example_target,
         example_event 4 ''agent-b'' ''complete'' example_target]
     = Inl (ESAAError ''INVALID_TRANSITION'')"
  by code_simp

text \<open>
  C6, amended: a \<open>complete\<close> or \<open>review\<close> event whose actor differs from \<open>assigned_to\<close>
  of the task it names never succeeds. It raises \<open>NOT_LOCK_OWNER\<close> when the task is in
  the status the action needs (\<open>in_progress\<close> for \<open>complete\<close>, \<open>review\<close> for \<open>review\<close>),
  \<open>IMMUTABLE_DONE\<close> when the task is done and \<open>INVALID_TRANSITION\<close> in any other status.
\<close>

theorem not_lock_owner:
  assumes "getitem event ''action'' = Inr (JStr action)"
    and "action = ''complete'' \<or> action = ''review''"
    and "getitem event ''payload'' = Inr (JObj p)"
    and "getitem p ''task_id'' = Inr tid"
    and "task_by_id (tasks s) tid = Inr (i, task)"
    and "getitem task ''status'' = Inr st"
    and "getitem event ''actor'' = Inr actor"
    and "\<not> py_eq (get_or task ''assigned_to'' JNull) actor"
  shows "apply_event s event =
           Inl (ESAAError
                  (if st = JStr ''done'' then ''IMMUTABLE_DONE''
                   else if st = JStr (if action = ''complete'' then ''in_progress'' else ''review'')
                   then ''NOT_LOCK_OWNER''
                   else ''INVALID_TRANSITION''))"
  using assms
  by (auto simp: apply_event_def dispatch_def apply_complete_def apply_review_def ensure_owner_def)

theorem not_lock_owner_witness:
  "apply_event (example_state [example_task ''in_progress'' ''agent-a''])
     (example_event 4 ''agent-b'' ''complete'' example_target)
     = Inl (ESAAError ''NOT_LOCK_OWNER'')
   \<and> apply_event (example_state [example_task ''review'' ''agent-a''])
       (example_event 5 ''agent-b'' ''review'' (example_target @ [(''decision'', JStr ''approve'')]))
     = Inl (ESAAError ''NOT_LOCK_OWNER'')"
  using not_lock_owner [of "example_event 4 ''agent-b'' ''complete'' example_target" "''complete''"
      example_target "JStr ''T-1''" "example_state [example_task ''in_progress'' ''agent-a'']" 0
      "example_task ''in_progress'' ''agent-a''" "JStr ''in_progress''" "JStr ''agent-b''"]
    not_lock_owner [of "example_event 5 ''agent-b'' ''review''
        (example_target @ [(''decision'', JStr ''approve'')])" "''review''"
      "example_target @ [(''decision'', JStr ''approve'')]" "JStr ''T-1''"
      "example_state [example_task ''review'' ''agent-a'']" 0
      "example_task ''review'' ''agent-a''" "JStr ''review''" "JStr ''agent-b''"]
  by (simp add: example_defs getitem_def get_or_def empty_state_def)

section \<open>Done is immutable\<close>

text \<open>
  C2. A \<open>claim\<close>, \<open>complete\<close> or \<open>review\<close> event that names a task whose status is
  \<open>done\<close> raises \<open>IMMUTABLE_DONE\<close>; nothing is written, since the exception leaves
  before any assignment. And whatever events are applied, a task record that is done
  stays where it is with every field as it was.
\<close>

theorem done_is_immutable:
  "(task_by_id (tasks s) tid = Inr (i, task) \<and> getitem task ''status'' = Inr (JStr ''done'') \<and>
    getitem event ''action'' = Inr (JStr action) \<and> action \<in> {''claim'', ''complete'', ''review''} \<and>
    getitem event ''payload'' = Inr (JObj p) \<and> getitem p ''task_id'' = Inr tid
    \<longrightarrow> apply_event s event = Inl (ESAAError ''IMMUTABLE_DONE''))
   \<and> (apply_events s events = Inr s' \<and> j < length (tasks s) \<and>
      getitem (tasks s ! j) ''status'' = Inr (JStr ''done'')
      \<longrightarrow> j < length (tasks s') \<and> tasks s' ! j = tasks s ! j)"
proof (intro conjI impI)
  assume a: "task_by_id (tasks s) tid = Inr (i, task) \<and> getitem task ''status'' = Inr (JStr ''done'') \<and>
    getitem event ''action'' = Inr (JStr action) \<and> action \<in> {''claim'', ''complete'', ''review''} \<and>
    getitem event ''payload'' = Inr (JObj p) \<and> getitem p ''task_id'' = Inr tid"
  then show "apply_event s event = Inl (ESAAError ''IMMUTABLE_DONE'')"
    by (auto simp: apply_event_def dispatch_def apply_claim_def apply_complete_def apply_review_def)
next
  assume b: "apply_events s events = Inr s' \<and> j < length (tasks s) \<and>
      getitem (tasks s ! j) ''status'' = Inr (JStr ''done'')"
  then show "j < length (tasks s')" "tasks s' ! j = tasks s ! j"
    using apply_events_done [of s events s' j] by (simp_all add: getitem_eq_Inr)
qed

theorem done_is_immutable_witness:
  "apply_event (example_state [example_task ''done'' ''agent-a''])
     (example_event 6 ''agent-a'' ''claim'' example_target)
     = Inl (ESAAError ''IMMUTABLE_DONE'')
   \<and> map_sum id (\<lambda>s'. tasks s' ! 0)
       (apply_events (example_state [example_task ''done'' ''agent-a''])
          [example_event 6 ''orchestrator'' ''task.create''
             [(''task_id'', JStr ''T-2''), (''task_kind'', JStr ''qa''), (''title'', JStr ''Check'')],
           example_event 7 ''agent-b'' ''claim'' [(''task_id'', JStr ''T-2'')]])
     = Inr (example_task ''done'' ''agent-a'')"
proof -
  let ?s = "example_state [example_task ''done'' ''agent-a'']"
  let ?es = "[example_event 6 ''orchestrator'' ''task.create''
                [(''task_id'', JStr ''T-2''), (''task_kind'', JStr ''qa''), (''title'', JStr ''Check'')],
              example_event 7 ''agent-b'' ''claim'' [(''task_id'', JStr ''T-2'')]]"
  have first: "apply_event ?s (example_event 6 ''agent-a'' ''claim'' example_target)
                 = Inl (ESAAError ''IMMUTABLE_DONE'')"
    using done_is_immutable [of ?s "JStr ''T-1''" 0 "example_task ''done'' ''agent-a''"
        "example_event 6 ''agent-a'' ''claim'' example_target" "''claim''" example_target]
    by (simp add: example_defs getitem_def empty_state_def)
  have "\<not> isl (apply_events ?s ?es)"
    by code_simp
  then obtain s' where run: "apply_events ?s ?es = Inr s'"
    by (cases "apply_events ?s ?es") simp_all
  have "tasks s' ! 0 = tasks ?s ! 0"
    using done_is_immutable [of ?s _ _ _ _ _ _ ?es s' 0] run
    by (simp add: example_defs getitem_def empty_state_def)
  with run first show ?thesis
    by (simp add: example_state_def)
qed

section \<open>The lock after a request for changes\<close>

text \<open>
  C9, as stated: after a review with \<open>request_changes\<close> every later \<open>claim\<close> on the task
  raises \<open>LOCKED_TASK\<close>. Not once the task is done: the owner completes again, the review
  approves, and the next \<open>claim\<close> raises \<open>IMMUTABLE_DONE\<close>, the check that comes first in
  \<open>_apply_claim\<close>.
\<close>

theorem request_changes_keeps_lock_counterexample:
  "map_sum id
     (\<lambda>s. map (\<lambda>t. (get_or t ''status'' JNull, get_or t ''assigned_to'' JNull)) (tasks s))
     (apply_events (empty_state ''now'' ''esaa-core'')
        [example_create,
         example_event 2 ''agent-a'' ''claim'' example_target,
         example_event 3 ''agent-a'' ''complete'' example_target,
         example_event 4 ''agent-a'' ''review''
           (example_target @ [(''decision'', JStr ''request_changes'')])])
     = Inr [(JStr ''in_progress'', JStr ''agent-a'')]
   \<and> apply_events (empty_state ''now'' ''esaa-core'')
        [example_create,
         example_event 2 ''agent-a'' ''claim'' example_target,
         example_event 3 ''agent-a'' ''complete'' example_target,
         example_event 4 ''agent-a'' ''review''
           (example_target @ [(''decision'', JStr ''request_changes'')]),
         example_event 5 ''agent-a'' ''complete'' example_target,
         example_event 6 ''agent-a'' ''review'' (example_target @ [(''decision'', JStr ''approve'')]),
         example_event 7 ''agent-b'' ''claim'' example_target]
     = Inl (ESAAError ''IMMUTABLE_DONE'')"
  by code_simp

text \<open>
  C9, amended: a review with \<open>request_changes\<close> that succeeds puts the task back in
  progress and changes nothing else of it, \<open>assigned_to\<close> and \<open>started_at\<close> included.
  From then on, whatever events are applied, no \<open>claim\<close> on the task succeeds, by any
  actor: it raises \<open>LOCKED_TASK\<close> while the task is not done and \<open>IMMUTABLE_DONE\<close> once
  it is.
\<close>

theorem request_changes_keeps_lock:
  assumes "getitem event ''action'' = Inr (JStr ''review'')"
    and "getitem event ''payload'' = Inr (JObj p)"
    and "getitem p ''task_id'' = Inr tid"
    and "get_or p ''decision'' JNull = JStr ''request_changes''"
    and "task_by_id (tasks s) tid = Inr (i, task)"
    and "apply_event s event = Inr s1"
  shows "tasks s1 ! i = AList.update ''status'' (JStr ''in_progress'') task
       \<and> get_or (tasks s1 ! i) ''assigned_to'' JNull = get_or task ''assigned_to'' JNull
       \<and> get_or (tasks s1 ! i) ''started_at'' JNull = get_or task ''started_at'' JNull
       \<and> (\<forall>events s2 c q.
            apply_events s1 events = Inr s2 \<and> getitem c ''action'' = Inr (JStr ''claim'') \<and>
            getitem c ''payload'' = Inr (JObj q) \<and> getitem q ''task_id'' = Inr tid
            \<longrightarrow> apply_event s2 c =
                  Inl (ESAAError (if getitem (tasks s2 ! i) ''status'' = Inr (JStr ''done'')
                                  then ''IMMUTABLE_DONE'' else ''LOCKED_TASK'')))"
proof -
  from task_by_id_sound [OF assms(5)] have i: "i < length (tasks s)" "tasks s ! i = task"
    by simp_all
  from assms have t1: "tasks s1 = (tasks s)[i := AList.update ''status'' (JStr ''in_progress'') task]"
    by (auto simp: apply_event_def dispatch_def apply_review_def bind_eq_Inr split: if_splits)
  with i have upd: "tasks s1 ! i = AList.update ''status'' (JStr ''in_progress'') task"
    by simp
  from task_by_id_update [OF assms(5) i(1), of "AList.update ''status'' (JStr ''in_progress'') task"] i t1
  have "task_by_id (tasks s1) tid = Inr (i, tasks s1 ! i)"
    by (simp add: update_conv')
  with upd have locked: "locked_at (tasks s1) tid i"
    by (simp add: locked_at_def update_conv')
  have "apply_event s2 c =
          Inl (ESAAError (if getitem (tasks s2 ! i) ''status'' = Inr (JStr ''done'')
                          then ''IMMUTABLE_DONE'' else ''LOCKED_TASK''))"
    if "apply_events s1 events = Inr s2" "getitem c ''action'' = Inr (JStr ''claim'')"
      "getitem c ''payload'' = Inr (JObj q)" "getitem q ''task_id'' = Inr tid"
    for events s2 c q
    using claim_locked [OF apply_events_locked [OF that(1) locked] that(2,3,4)] .
  then have later: "\<forall>events s2 c q.
            apply_events s1 events = Inr s2 \<and> getitem c ''action'' = Inr (JStr ''claim'') \<and>
            getitem c ''payload'' = Inr (JObj q) \<and> getitem q ''task_id'' = Inr tid
            \<longrightarrow> apply_event s2 c =
                  Inl (ESAAError (if getitem (tasks s2 ! i) ''status'' = Inr (JStr ''done'')
                                  then ''IMMUTABLE_DONE'' else ''LOCKED_TASK''))"
    by blast
  from upd have "get_or (tasks s1 ! i) ''assigned_to'' JNull = get_or task ''assigned_to'' JNull"
    "get_or (tasks s1 ! i) ''started_at'' JNull = get_or task ''started_at'' JNull"
    by (simp_all add: get_or_def update_conv')
  with upd later show ?thesis
    by blast
qed

theorem request_changes_keeps_lock_witness:
  "apply_events (example_state [example_task ''review'' ''agent-a''])
     [example_event 4 ''agent-a'' ''review''
        (example_target @ [(''decision'', JStr ''request_changes'')]),
      example_event 5 ''agent-a'' ''claim'' example_target]
   = Inl (ESAAError ''LOCKED_TASK'')"
proof -
  let ?s = "example_state [example_task ''review'' ''agent-a'']"
  let ?p = "example_target @ [(''decision'', JStr ''request_changes'')]"
  let ?e = "example_event 4 ''agent-a'' ''review'' ?p"
  let ?c = "example_event 5 ''agent-a'' ''claim'' example_target"
  have "\<not> isl (apply_event ?s ?e)"
    by code_simp
  then obtain s1 where s1: "apply_event ?s ?e = Inr s1"
    by (cases "apply_event ?s ?e") simp_all
  have "getitem ?e ''action'' = Inr (JStr ''review'')" "getitem ?e ''payload'' = Inr (JObj ?p)"
    "getitem ?p ''task_id'' = Inr (JStr ''T-1'')" "get_or ?p ''decision'' JNull = JStr ''request_changes''"
    "task_by_id (tasks ?s) (JStr ''T-1'') = Inr (0, example_task ''review'' ''agent-a'')"
    by (simp_all add: example_defs getitem_def get_or_def empty_state_def)
  from request_changes_keeps_lock [OF this s1]
  have st: "tasks s1 ! 0 = AList.update ''status'' (JStr ''in_progress'') (example_task ''review'' ''agent-a'')"
    and later: "\<And>events s2 c q.
      apply_events s1 events = Inr s2 \<and> getitem c ''action'' = Inr (JStr ''claim'') \<and>
      getitem c ''payload'' = Inr (JObj q) \<and> getitem q ''task_id'' = Inr (JStr ''T-1'')
      \<Longrightarrow> apply_event s2 c =
            Inl (ESAAError (if getitem (tasks s2 ! 0) ''status'' = Inr (JStr ''done'')
                            then ''IMMUTABLE_DONE'' else ''LOCKED_TASK''))"
    by blast+
  have "apply_event s1 ?c =
          Inl (ESAAError (if getitem (tasks s1 ! 0) ''status'' = Inr (JStr ''done'')
                          then ''IMMUTABLE_DONE'' else ''LOCKED_TASK''))"
    by (rule later [of "[]" s1 ?c example_target]) (simp add: example_defs getitem_def)
  with st have "apply_event s1 ?c = Inl (ESAAError ''LOCKED_TASK'')"
    by (simp add: example_defs getitem_def)
  with s1 show ?thesis by simp
qed

section \<open>Creating a task twice\<close>

text \<open>
  C10. \<open>task.create\<close> does not look at the tasks there are, so it fails on one state
  exactly when it fails on any other: with a payload that \<open>_new_task\<close> accepts it
  appends a second record under an identifier already present, and the lookup of that
  identifier still resolves to the first record. \<open>hotfix.create\<close> with the same
  payload raises \<open>DUPLICATE_TASK\<close>.
\<close>

theorem task_create_duplicate:
  assumes "getitem event ''payload'' = Inr (JObj p)"
    and "getitem p ''task_id'' = Inr tid"
    and "task_by_id (tasks s) tid = Inr (i, task)"
    and "new_task (JObj p) = Inr t"
    and "getitem event ''event_seq'' = Inr n"
    and "getitem event ''ts'' = Inr ts"
  shows "(getitem event ''action'' = Inr (JStr ''task.create'') \<longrightarrow>
            (\<exists>s'. apply_event s event = Inr s' \<and> tasks s' = tasks s @ [t] \<and>
                  task_by_id (tasks s') tid = Inr (i, task)))
       \<and> (getitem event ''action'' = Inr (JStr ''task.create'') \<longrightarrow>
            isl (apply_event s event) = isl (apply_event other event))
       \<and> (getitem event ''action'' = Inr (JStr ''hotfix.create'') \<longrightarrow>
            apply_event s event = Inl (ESAAError ''DUPLICATE_TASK''))"
  using assms task_by_id_append [OF assms(3), of t] task_exists_found [OF assms(3)]
  by (simp add: apply_event_def dispatch_def apply_hotfix_create_def)

theorem task_create_duplicate_witness:
  "map_sum id (\<lambda>s'. map (\<lambda>t. get_or t ''task_id'' JNull) (tasks s'))
     (apply_event (example_state [example_todo]) example_create)
     = Inr [JStr ''T-1'', JStr ''T-1'']
   \<and> apply_event (example_state [example_todo])
       (example_event 1 ''orchestrator'' ''hotfix.create''
          [(''task_id'', JStr ''T-1''), (''task_kind'', JStr ''impl''), (''title'', JStr ''Task'')])
     = Inl (ESAAError ''DUPLICATE_TASK'')"
proof -
  let ?s = "example_state [example_todo]"
  let ?p = "[(''task_id'', JStr ''T-1''), (''task_kind'', JStr ''impl''), (''title'', JStr ''Task'')]"
  let ?h = "example_event 1 ''orchestrator'' ''hotfix.create'' ?p"
  obtain t where t: "new_task (JObj ?p) = Inr t" "get_or t ''task_id'' JNull = JStr ''T-1''"
    by (simp add: new_task_def getitem_def get_or_def has_key_def)
  have found: "task_by_id (tasks ?s) (JStr ''T-1'') = Inr (0, example_todo)"
    by (simp add: example_defs getitem_def empty_state_def)
  from task_create_duplicate [of example_create ?p "JStr ''T-1''" ?s 0 "example_todo" t
      "JInt 1" "JStr ''2026-02-23T16:44:23Z''"] t(1) found
  obtain s' where "apply_event ?s example_create = Inr s'" "tasks s' = tasks ?s @ [t]"
    by (auto simp: example_defs getitem_def)
  moreover
  from task_create_duplicate [of ?h ?p "JStr ''T-1''" ?s 0 "example_todo" t
      "JInt 1" "JStr ''2026-02-23T16:44:23Z''"] t(1) found
  have "apply_event ?s ?h = Inl (ESAAError ''DUPLICATE_TASK'')"
    by (simp add: example_defs getitem_def)
  ultimately show ?thesis
    using t(2) by (simp add: example_defs get_or_def empty_state_def)
qed

section \<open>Re-reported issues\<close>

text \<open>
  C4, as stated: an \<open>issue.report\<close> for an issue already there copies severity, title,
  evidence and affected from the payload onto the record. The last of these it does not:
  only the fresh record takes \<open>affected\<close> (and the baseline in it) from the payload. Here
  an issue reported against baseline B-001 and resolved is reported again against
  B-002 with a higher severity; it is open again with the new severity, and
  \<open>affected\<close> is as it was.
\<close>

theorem issue_report_existing_counterexample:
  "map_sum id
     (\<lambda>s'. map (\<lambda>kv. (get_or (snd kv) ''status'' JNull, get_or (snd kv) ''severity'' JNull,
                      get_or (snd kv) ''affected'' JNull)) (issues s'))
     (apply_events (empty_state ''now'' ''esaa-core'')
        [example_event 1 ''agent-qa'' ''issue.report''
           [(''issue_id'', JStr ''I-1''), (''affected'', JObj [(''baseline_id'', JStr ''B-001'')])],
         example_event 2 ''orchestrator'' ''issue.resolve'' [(''issue_id'', JStr ''I-1'')],
         example_report])
   = Inr [(JStr ''open'', JStr ''high'', JObj [(''baseline_id'', JStr ''B-001'')])]"
  by code_simp

text \<open>
  C4, amended: an \<open>issue.report\<close> event for an issue already in the state, when it
  applies, sets the status of the record back to \<open>open\<close> and writes severity, title and
  evidence from the payload, each keeping its old value when the payload has none
  (evidence an empty object when the record had none either). Every other field of the
  record, \<open>affected\<close> and \<open>baseline_id\<close> among them, stays as it was.
\<close>

theorem issue_report_existing:
  assumes "getitem event ''action'' = Inr (JStr ''issue.report'')"
    and "getitem event ''payload'' = Inr (JObj p)"
    and "getitem p ''issue_id'' = Inr iid"
    and "issues_get (issues s) iid = Some issue"
    and "apply_event s event = Inr s'"
  shows "\<exists>issue'. issues_get (issues s') iid = Some issue'
       \<and> getitem issue' ''status'' = Inr (JStr ''open'')
       \<and> getitem issue' ''severity'' = Inr (get_or p ''severity'' (get_or issue ''severity'' JNull))
       \<and> getitem issue' ''title'' = Inr (get_or p ''title'' (get_or issue ''title'' JNull))
       \<and> getitem issue' ''evidence'' = Inr (get_or p ''evidence'' (get_or issue ''evidence'' (JObj [])))
       \<and> (\<forall>k. k \<notin> {''status'', ''severity'', ''title'', ''evidence''}
              \<longrightarrow> map_of issue' k = map_of issue k)"
proof -
  from assms obtain s1 where s1: "apply_issue_report s event = Inr s1" and iss: "issues s' = issues s1"
    by (auto simp: apply_event_def dispatch_def bind_eq_Inr set_run_def)
  from s1 assms(2,3,4) obtain issue' where touch: "touch_issue p issue = Inr issue'"
    and "issues s1 = issues_set iid issue' (issues s)"
    by (auto simp: apply_issue_report_def bind_eq_Inr Let_def split: if_splits)
  with iss issues_get_set [OF assms(4)] have "issues_get (issues s') iid = Some issue'"
    by simp
  with touch_issue_Inr [OF touch] show ?thesis
    by blast
qed

theorem issue_report_existing_witness:
  "map_sum id
     (\<lambda>s'. map_option
        (\<lambda>i. (get_or i ''status'' JNull, get_or i ''severity'' JNull, get_or i ''affected'' JNull))
        (issues_get (issues s') (JStr ''I-1'')))
     (apply_event ((example_state [])\<lparr>issues := [(JStr ''I-1'', example_issue)]\<rparr>) example_report)
   = Inr (Some (JStr ''open'', JStr ''high'', JObj [(''baseline_id'', JStr ''B-001'')]))"
proof -
  let ?s = "(example_state [])\<lparr>issues := [(JStr ''I-1'', example_issue)]\<rparr>"
  let ?p = "[(''issue_id'', JStr ''I-1''), (''severity'', JStr ''high''),
             (''affected'', JObj [(''baseline_id'', JStr ''B-002'')])]"
  have "\<not> isl (apply_event ?s example_report)"
    by code_simp
  then obtain s' where s': "apply_event ?s example_report = Inr s'"
    by (cases "apply_event ?s example_report") simp_all
  have "getitem example_report ''action'' = Inr (JStr ''issue.report'')"
    "getitem example_report ''payload'' = Inr (JObj ?p)" "getitem ?p ''issue_id'' = Inr (JStr ''I-1'')"
    "issues_get (issues ?s) (JStr ''I-1'') = Some example_issue"
    by (simp_all add: example_defs example_report_def getitem_def)
  from issue_report_existing [OF this s'] obtain issue' where i:
    "issues_get (issues s') (JStr ''I-1'') = Some issue'
       \<and> getitem issue' ''status'' = Inr (JStr ''open'')
       \<and> getitem issue' ''severity'' = Inr (get_or ?p ''severity'' (get_or example_issue ''severity'' JNull))
       \<and> getitem issue' ''title'' = Inr (get_or ?p ''title'' (get_or example_issue ''title'' JNull))
       \<and> getitem issue' ''evidence'' = Inr (get_or ?p ''evidence'' (get_or example_issue ''evidence'' (JObj [])))
       \<and> (\<forall>k. k \<notin> {''status'', ''severity'', ''title'', ''evidence''}
              \<longrightarrow> map_of issue' k = map_of example_issue k)" ..
  then have "map_of issue' ''affected'' = map_of example_issue ''affected''"
    by simp
  then have aff: "get_or issue' ''affected'' JNull = JObj [(''baseline_id'', JStr ''B-001'')]"
    by (simp add: get_or_def example_issue_def)
  from i have "get_or issue' ''status'' JNull = JStr ''open''"
    "get_or issue' ''severity'' JNull = JStr ''high''"
    by (simp_all add: getitem_eq_Inr get_or_def)
  with i aff s' show ?thesis
    by simp
qed

section \<open>Sequence numbers in the store\<close>

text \<open>
  C5. A line whose \<open>event_seq\<close> is not an integer is to raise \<open>EVENT_SEQ_INVALID\<close>.
  The check is \<open>isinstance(..., int)\<close>, which the JSON booleans pass: a first line with
  \<open>"event_seq": true\<close> is accepted and stored with \<open>True\<close> as its sequence number, and
  with \<open>false\<close> the parse raises \<open>EVENT_SEQ_NON_MONOTONIC\<close>, not \<open>EVENT_SEQ_INVALID\<close>.
  For the rest the claim holds, see \<open>parse_line_seq_invalid\<close>,
  \<open>parse_line_seq_non_monotonic\<close> and \<open>parse_event_store_seq\<close> above: both errors are
  \<open>CorruptedStoreError\<close>s, and the numbers of an accepted store count 1, 2, ... in order.
\<close>

theorem parse_event_store_boolean_seq:
  "parse_event_store [Some (example_seq (JBool True))] = Inr [example_seq (JBool True)]
   \<and> parse_event_store [Some (example_seq (JBool False))]
     = Inl (CorruptedStoreError ''EVENT_SEQ_NON_MONOTONIC'')"
  by code_simp

section \<open>Legacy events\<close>

text \<open>
  C8. A store of one line that has action \<open>run.init\<close>, a \<open>data\<close> object, no \<open>payload\<close>
  and no \<open>event_id\<close> (and, to be an event at all, sequence number 1, a timestamp and an
  actor) parses to one event: its action is \<open>run.start\<close>, its payload the former data
  with \<open>status\<close> set to \<open>initialized\<close> unless the data had one, its identifier
  \<open>LEGACY-EV-00000001\<close>, and its schema version the one given or else 0.3.0.
\<close>

theorem legacy_event_normalized:
  assumes "get_or raw ''action'' JNull = JStr ''run.init''"
    and "map_of raw ''data'' = Some (JObj d)"
    and "\<not> has_key raw ''payload''"
    and "\<not> has_key raw ''event_id''"
    and "map_of raw ''event_seq'' = Some (JInt 1)"
    and "has_key raw ''ts''"
    and "has_key raw ''actor''"
  shows "\<exists>event. parse_event_store [Some raw] = Inr [event]
           \<and> getitem event ''action'' = Inr (JStr ''run.start'')
           \<and> getitem event ''payload'' = Inr (JObj (setdefault ''status'' (JStr ''initialized'') d))
           \<and> getitem event ''event_id'' = Inr (JStr ''LEGACY-EV-00000001'')
           \<and> getitem event ''schema_version'' = Inr (get_or raw ''schema_version'' (JStr ''0.3.0''))"
proof -
  define e1 where "e1 = AList.update ''action'' (JStr ''run.start'')
    (AList.update ''payload'' (JObj d) (AList.delete ''data'' raw))"
  define e2 where "e2 = AList.update ''payload''
    (JObj (setdefault ''status'' (JStr ''initialized'') d)) e1"
  define e3 where "e3 = setdefault ''schema_version'' (JStr ''0.3.0'') e2"
  define event where "event = with_event_id 1 e3"
  have m1: "map_of e1 = (map_of raw)(''data'' := None, ''payload'' \<mapsto> JObj d,
      ''action'' \<mapsto> JStr ''run.start'')"
    by (simp add: e1_def update_conv' delete_conv')
  have m2: "map_of e2 = (map_of e1)(''payload'' \<mapsto> JObj (setdefault ''status'' (JStr ''initialized'') d))"
    by (simp add: e2_def update_conv')
  have m3: "map_of e3 = (map_of e2)(''schema_version'' \<mapsto> get_or raw ''schema_version'' (JStr ''0.3.0''))"
    by (auto simp: e3_def setdefault_def has_key_def get_or_def m2 m1 map_add_def fun_eq_iff
        split: option.splits)
  have m4: "map_of event = (map_of e3)(''event_id'' \<mapsto> JStr ''LEGACY-EV-00000001'')"
    using assms(4)
    by (simp add: event_def with_event_id_def has_key_def m3 m2 m1 update_conv' format_0d_8_1)
  have norm: "normalize_legacy_event raw = Inr e3"
    unfolding e3_def e2_def e1_def using assms(1,2,3)
    by (simp add: normalize_legacy_event_def Let_def has_key_def get_or_def setdefault_def
        update_conv' delete_conv' split: option.splits)
  have seq: "int_value (get_or e3 ''event_seq'' JNull) = Some 1"
    using assms(5) by (simp add: get_or_def m3 m2 m1)
  have check: "check_event [] event = Inr event"
    using assms(5,6,7)
    by (simp add: check_event_def get_or_def has_key_def required_def in_strs_def
        CANONICAL_ACTIONS_def m4 m3 m2 m1)
  from norm seq check have "parse_event_store [Some raw] = Inr [event]"
    by (simp add: parse_event_store_def parse_line_def event_def)
  then show ?thesis
    by (intro exI [of _ event]) (simp add: getitem_def m4 m3 m2 m1)
qed

theorem legacy_event_normalized_witness:
  "map_sum id
     (map (\<lambda>e. (get_or e ''action'' JNull, get_or e ''payload'' JNull,
                 get_or e ''event_id'' JNull, get_or e ''schema_version'' JNull)))
     (parse_event_store [Some example_legacy])
   = Inr [(JStr ''run.start'',
           JObj [(''run_id'', JStr ''RUN-1''), (''master_correlation_id'', JStr ''CID-1''),
                 (''status'', JStr ''initialized'')],
           JStr ''LEGACY-EV-00000001'', JStr ''0.3.0'')]"
proof -
  let ?d = "[(''run_id'', JStr ''RUN-1''), (''master_correlation_id'', JStr ''CID-1'')]"
  have "get_or example_legacy ''action'' JNull = JStr ''run.init''"
    "map_of example_legacy ''data'' = Some (JObj ?d)"
    "\<not> has_key example_legacy ''payload''" "\<not> has_key example_legacy ''event_id''"
    "map_of example_legacy ''event_seq'' = Some (JInt 1)"
    "has_key example_legacy ''ts''" "has_key example_legacy ''actor''"
    by (simp_all add: example_legacy_def get_or_def has_key_def)
  from legacy_event_normalized [OF this] obtain event where e:
    "parse_event_store [Some example_legacy] = Inr [event]
       \<and> getitem event ''action'' = Inr (JStr ''run.start'')
       \<and> getitem event ''payload'' = Inr (JObj (setdefault ''status'' (JStr ''initialized'') ?d))
       \<and> getitem event ''event_id'' = Inr (JStr ''LEGACY-EV-00000001'')
       \<and> getitem event ''schema_version'' = Inr (get_or example_legacy ''schema_version'' (JStr ''0.3.0''))" ..
  then have "get_or event ''action'' JNull = JStr ''run.start''"
    "get_or event ''payload'' JNull = JObj (setdefault ''status'' (JStr ''initialized'') ?d)"
    "get_or event ''event_id'' JNull = JStr ''LEGACY-EV-00000001''"
    "get_or event ''schema_version'' JNull = get_or example_legacy ''schema_version'' (JStr ''0.3.0'')"
    by (simp_all add: getitem_eq_Inr get_or_def)
  with e show ?thesis
    by (simp add: setdefault_def has_key_def get_or_def example_legacy_def)
qed

section \<open>The projection hash\<close>



text \<open>
  The canonical bytes on a small value: keys in order at every level, no blanks. That
  the order in which a dictionary was filled does not show is \<open>dumps_key_order\<close> above.
\<close>

lemma canonical_json_bytes_evaluated:
  \<open>canonical_json_bytes (JObj [(''b'', JArr [JInt (- 12), JBool True]), (''a'', JObj [(''d'', JNull), (''c'', JStr ''x'')])])
     = ''{"a":{"c":"x","d":null},"b":[-12,true]}'' @ [CHR 0x0A]\<close>
  by code_simp

section \<open>Replay of a prefix\<close>

text \<open>
  C7. For the events \<open>e1..en\<close> of a store that parses and \<open>k\<close> at most \<open>n\<close>, replay with
  \<open>until\<close> the decimal numeral of \<open>k\<close> selects exactly the first \<open>k\<close> events and
  materializes them, and the hash it reports is the hash stored by materializing that
  prefix directly (at any wall-clock time); where one raises, the other raises the same.
\<close>

theorem replay_until_prefix:
  assumes "parse_event_store lines = Inr events"
    and "k \<le> length events"
  shows "select_events (Some (dec_nat k)) events = Inr (take k events)
       \<and> replay env now lines (Some (dec_nat k)) =
           bind (materialize env now (take k events) ''esaa-core'') (\<lambda>views.
             Inr [(''events_replayed'', JInt (int k)),
                  (''last_event_seq'', last_event_seq (run (meta (fst views)))),
                  (''projection_hash_sha256'', JStr (projection_hash_sha256 (run (meta (fst views))))),
                  (''verify_status'', JStr ''ok'')])
       \<and> map_sum id (\<lambda>result. get_or result ''projection_hash_sha256'' JNull)
           (replay env now lines (Some (dec_nat k)))
         = map_sum id JStr (stored_hash (materialize env now' (take k events) ''esaa-core''))"
proof -
  have "\<forall>i<length events. int_value (get_or (events ! i) ''event_seq'' JNull) = Some (0 + 1 + int i)"
    using parse_event_store_seq(2) [OF assms(1)] by (simp add: add.commute)
  from select_by_seq_take [OF this, of "int k"]
  have sel: "select_events (Some (dec_nat k)) events = Inr (take k events)"
    using dec_nat_digits [of k] by (simp add: select_events_def isdigit_dec_nat int_of_str_dec_nat)
  with assms have rep: "replay env now lines (Some (dec_nat k)) =
           bind (materialize env now (take k events) ''esaa-core'') (\<lambda>views.
             Inr [(''events_replayed'', JInt (int k)),
                  (''last_event_seq'', last_event_seq (run (meta (fst views)))),
                  (''projection_hash_sha256'', JStr (projection_hash_sha256 (run (meta (fst views))))),
                  (''verify_status'', JStr ''ok'')])"
    by (simp add: replay_def min_def)
  have "map_sum id (\<lambda>result. get_or result ''projection_hash_sha256'' JNull)
           (replay env now lines (Some (dec_nat k)))
         = map_sum id JStr (stored_hash (materialize env now (take k events) ''esaa-core''))"
    unfolding rep stored_hash_def
    by (cases "materialize env now (take k events) ''esaa-core''") (simp_all add: get_or_def)
  with materialize_now [of env now "take k events" "''esaa-core''" now'] sel rep show ?thesis
    by simp
qed

theorem replay_until_prefix_witness:
  "parse_event_store (map Some example_events) = Inr example_events
   \<and> 2 \<le> length example_events
   \<and> select_events (Some ''2'') example_events = Inr (take 2 example_events)
   \<and> map_sum id (\<lambda>result. get_or result ''projection_hash_sha256'' JNull)
       (replay example_env ''2026-03-01T00:00:00Z'' (map Some example_events) (Some ''2''))
     = map_sum id JStr
         (stored_hash (materialize example_env ''2026-02-23T16:44:23Z'' (take 2 example_events)
            ''esaa-core''))"
proof -
  have parse: "parse_event_store (map Some example_events) = Inr example_events"
    by code_simp
  have len: "2 \<le> length example_events"
    by (simp add: example_events_def)
  have two: "dec_nat 2 = ''2''"
    by (simp add: dec_nat.simps digit_char_def)
  note prefix = replay_until_prefix [OF parse len, of example_env "''2026-03-01T00:00:00Z''"
      "''2026-02-23T16:44:23Z''", unfolded two]
  from parse len conjunct1 [OF prefix] conjunct2 [OF conjunct2 [OF prefix]]
  show ?thesis by (intro conjI)
qed

end
